theory Spec2Isabelle
  imports Complex_Main
begin

section \<open>Conventions of the embedding\<close>

text \<open>
  The development embeds the coordination layer of the repository: the relationship
  ledger (\<^verbatim>\<open>relationship_manager.js\<close>), the emotional state store
  (\<^verbatim>\<open>SoulState\<close>), the response arbitration
  (\<^verbatim>\<open>CognitiveEngine.shouldRespond\<close>,
  \<^verbatim>\<open>ConversationCoordinator\<close>), the leader's thought tick
  (\<^verbatim>\<open>agent.js\<close>) and the command relay (\<^verbatim>\<open>mindserver.js\<close>).

  JavaScript numbers are modelled as \<^typ>\<open>real\<close> (no rounding, no NaN), counters and
  timestamps as \<^typ>\<open>nat\<close>, strings as \<^typ>\<open>string\<close> restricted to ASCII.
  Every call of \<^verbatim>\<open>Math.random()\<close> and \<^verbatim>\<open>Date.now()\<close> is an explicit argument
  of the function that makes it, mutation is explicit state passing, and what a function
  sends over a socket is appended to a log that is part of the returned state.
\<close>

section \<open>Relationship ledger\<close>

datatype rel_type = Stranger | Acquaintance | Friend | BestFriend | Rival | Enemy

record impact =
  i_trust :: real
  i_fondness :: real
  i_respect :: real

datatype emotional_tag = Positive | Negative | Neutral

record memory =
  m_type :: string
  m_details :: string
  m_timestamp :: nat
  m_emotional :: emotional_tag

record relationship =
  target :: string
  isBot :: bool
  trust :: real
  fondness :: real
  respect :: real
  totalInteractions :: nat
  positiveInteractions :: nat
  negativeInteractions :: nat
  lastInteraction :: "nat option"
  memories :: "memory list"
  rtype :: rel_type

definition maxMemories :: nat where
  "maxMemories = 10"

text \<open>The constructor of \<^verbatim>\<open>Relationship\<close>.\<close>

definition new_relationship :: "string \<Rightarrow> bool \<Rightarrow> relationship" where
  "new_relationship targetName is_bot =
     \<lparr>target = targetName, isBot = is_bot, trust = 0, fondness = 0, respect = 0,
      totalInteractions = 0, positiveInteractions = 0, negativeInteractions = 0,
      lastInteraction = None, memories = [], rtype = Stranger\<rparr>"

definition mk_impact :: "real \<Rightarrow> real \<Rightarrow> real \<Rightarrow> impact" where
  "mk_impact t f r = \<lparr>i_trust = t, i_fondness = f, i_respect = r\<rparr>"

definition impactMap :: "(string \<times> impact) list" where
  "impactMap =
    [(''helped'', mk_impact 0.1 0.1 0.05),
     (''complimented'', mk_impact 0.05 0.15 0.05),
     (''thanked'', mk_impact 0.05 0.1 0.05),
     (''gifted'', mk_impact 0.1 0.2 0.1),
     (''defended'', mk_impact 0.15 0.15 0.1),
     (''goodConversation'', mk_impact 0.05 0.1 0.05),
     (''laughedTogether'', mk_impact 0.05 0.15 0),
     (''sharedGoal'', mk_impact 0.1 0.1 0.1),
     (''insulted'', mk_impact (- 0.15) (- 0.2) (- 0.1)),
     (''ignored'', mk_impact (- 0.05) (- 0.1) (- 0.05)),
     (''attacked'', mk_impact (- 0.3) (- 0.3) (- 0.1)),
     (''betrayed'', mk_impact (- 0.4) (- 0.3) (- 0.2)),
     (''mocked'', mk_impact (- 0.1) (- 0.15) (- 0.1)),
     (''interrupted'', mk_impact (- 0.05) (- 0.05) (- 0.1)),
     (''commanded'', mk_impact 0 (- 0.05) (- 0.05)),
     (''dismissed'', mk_impact (- 0.1) (- 0.1) (- 0.15)),
     (''collaborated'', mk_impact 0.05 0.05 0.1),
     (''chatted'', mk_impact 0.02 0.03 0),
     (''observed'', mk_impact 0 0 0.02)]"

text \<open>\<^verbatim>\<open>impactMap[type] || { trust: 0, fondness: 0, respect: 0 }\<close>\<close>

definition lookup_impact :: "string \<Rightarrow> impact" where
  "lookup_impact ty = (case map_of impactMap ty of Some i \<Rightarrow> i | None \<Rightarrow> mk_impact 0 0 0)"

text \<open>\<^verbatim>\<open>applyChange\<close>: diminishing returns near the extremes, clamped to [-1, 1].\<close>

definition applyChange :: "real \<Rightarrow> real \<Rightarrow> real" where
  "applyChange current delta =
     (let resistance = \<bar>current\<bar> * 0.5;
          effectiveDelta = delta * (1 - resistance)
      in max (- 1) (min 1 (current + effectiveDelta)))"

definition addMemory_rel :: "string \<Rightarrow> string \<Rightarrow> nat \<Rightarrow> relationship \<Rightarrow> relationship" where
  "addMemory_rel ty details now r =
     (let m = \<lparr>m_type = ty, m_details = details, m_timestamp = now,
                m_emotional = (if fondness r > 0.3 then Positive
                               else if fondness r < - 0.3 then Negative else Neutral)\<rparr>;
          ms = memories r @ [m]
      in r\<lparr>memories := (if length ms > maxMemories then tl ms else ms)\<rparr>)"

text \<open>\<^verbatim>\<open>updateType\<close>: the chain of comparisons of the source, in its order.\<close>

definition updateType :: "relationship \<Rightarrow> relationship" where
  "updateType r =
     (let avg = (trust r + fondness r + respect r) / 3
      in r\<lparr>rtype :=
           (if avg > 0.6 then BestFriend
            else if avg > 0.3 then Friend
            else if avg > 0.1 then Acquaintance
            else if avg > - 0.2 then Stranger
            else if avg > - 0.5 then Rival
            else Enemy)\<rparr>)"

definition recordInteraction :: "string \<Rightarrow> string \<Rightarrow> nat \<Rightarrow> relationship \<Rightarrow> relationship" where
  "recordInteraction ty details now r0 =
     (let r1 = r0\<lparr>totalInteractions := totalInteractions r0 + 1, lastInteraction := Some now\<rparr>;
          imp = lookup_impact ty;
          r2 = r1\<lparr>trust := applyChange (trust r1) (i_trust imp)\<rparr>;
          r3 = r2\<lparr>fondness := applyChange (fondness r2) (i_fondness imp)\<rparr>;
          r4 = r3\<lparr>respect := applyChange (respect r3) (i_respect imp)\<rparr>;
          r5 = (if i_fondness imp > 0 then r4\<lparr>positiveInteractions := positiveInteractions r4 + 1\<rparr>
                else if i_fondness imp < 0 then r4\<lparr>negativeInteractions := negativeInteractions r4 + 1\<rparr>
                else r4);
          r6 = (if \<bar>i_fondness imp\<bar> \<ge> 0.1 \<or> \<bar>i_trust imp\<bar> \<ge> 0.1
                then addMemory_rel ty details now r5 else r5)
      in updateType r6)"

text \<open>\<^verbatim>\<open>decay(hours = 1)\<close>: the three metrics shrink by one percent per hour.\<close>

definition decay :: "real \<Rightarrow> relationship \<Rightarrow> relationship" where
  "decay hours r0 =
     (let decayRate = 0.01 * hours;
          r1 = r0\<lparr>trust := trust r0 * (1 - decayRate)\<rparr>;
          r2 = r1\<lparr>fondness := fondness r1 * (1 - decayRate)\<rparr>;
          r3 = r2\<lparr>respect := respect r2 * (1 - decayRate)\<rparr>
      in updateType r3)"

text \<open>
  The thresholds as the specification documents them, on the mean of the three metrics:
  each relationship type with its own interval.
\<close>

definition metrics_mean :: "relationship \<Rightarrow> real" where
  "metrics_mean r = (trust r + fondness r + respect r) / 3"

definition documented_type :: "real \<Rightarrow> rel_type" where
  "documented_type m =
     (if m > 0.6 then BestFriend
      else if 0.3 < m \<and> m \<le> 0.6 then Friend
      else if 0.1 < m \<and> m \<le> 0.3 then Acquaintance
      else if - 0.2 < m \<and> m \<le> 0.1 then Stranger
      else if - 0.5 < m \<and> m \<le> - 0.2 then Rival
      else Enemy)"

section \<open>Command relay\<close>

text \<open>
  \<^verbatim>\<open>CommandRelay\<close> of \<^verbatim>\<open>mindserver.js\<close>. The four \<^verbatim>\<open>Map\<close>s of the class are
  partial maps; a socket is a handle; what is emitted on a socket is appended to
  \<open>emitted\<close>, and a \<^verbatim>\<open>setTimeout\<close> that deletes a command record is appended to
  \<open>timers\<close> with its delay.
\<close>

type_synonym socket = nat

record position =
  pos_x :: real
  pos_y :: real
  pos_z :: real

record worker_record =
  w_leader :: string
  w_socket :: socket
  w_status :: string
  w_lastUpdate :: nat
  w_position :: "position option"
  w_health :: real
  w_food :: real

record leader_record =
  l_socket :: "socket option"

record command_record =
  c_leader :: string
  c_worker :: string
  c_command :: string
  c_args :: "string list"
  c_timestamp :: nat
  c_status :: string

text \<open>The status object a worker reports; an absent field is \<open>None\<close>.\<close>

record status_report =
  st_status :: string
  st_position :: "position option"
  st_health :: "real option"
  st_food :: "real option"
  st_commandId :: "string option"

datatype emit =
    WorkerCommand socket string "string list" string
  | WorkerStatusUpdate socket string status_report

record relay =
  workers :: "string \<rightharpoonup> worker_record"
  leaders :: "string \<rightharpoonup> leader_record"
  commandQueue :: "string \<rightharpoonup> command_record"
  workersByLeader :: "string \<rightharpoonup> string list"
  emitted :: "emit list"
  timers :: "(nat \<times> string) list"

definition new_relay :: relay where
  "new_relay = \<lparr>workers = Map.empty, leaders = Map.empty, commandQueue = Map.empty,
                 workersByLeader = Map.empty, emitted = [], timers = []\<rparr>"

definition registerWorker :: "string \<Rightarrow> string \<Rightarrow> socket \<Rightarrow> nat \<Rightarrow> relay \<Rightarrow> relay" where
  "registerWorker workerName leaderName sock now s =
     (let s1 = s\<lparr>workers := (workers s)(workerName \<mapsto>
                  \<lparr>w_leader = leaderName, w_socket = sock, w_status = ''registered'',
                   w_lastUpdate = now, w_position = None, w_health = 20, w_food = 20\<rparr>)\<rparr>;
          s2 = (if workersByLeader s1 leaderName = None
                then s1\<lparr>workersByLeader := (workersByLeader s1)(leaderName \<mapsto> [])\<rparr> else s1);
          leaderWorkers = (case workersByLeader s2 leaderName of Some ws \<Rightarrow> ws | None \<Rightarrow> [])
      in if workerName \<notin> set leaderWorkers
         then s2\<lparr>workersByLeader := (workersByLeader s2)(leaderName \<mapsto> leaderWorkers @ [workerName])\<rparr>
         else s2)"

definition registerLeader :: "string \<Rightarrow> socket option \<Rightarrow> relay \<Rightarrow> relay" where
  "registerLeader leaderName sock s =
     (let s1 = s\<lparr>leaders := (leaders s)(leaderName \<mapsto> \<lparr>l_socket = sock\<rparr>)\<rparr>
      in if workersByLeader s1 leaderName = None
         then s1\<lparr>workersByLeader := (workersByLeader s1)(leaderName \<mapsto> [])\<rparr> else s1)"

text \<open>\<^verbatim>\<open>indexOf\<close> followed by \<^verbatim>\<open>splice(idx, 1)\<close>: the first occurrence is removed.\<close>

definition removeWorker :: "string \<Rightarrow> relay \<Rightarrow> relay" where
  "removeWorker workerName s =
     (case workers s workerName of
        None \<Rightarrow> s
      | Some worker \<Rightarrow>
          (let s1 = (case workersByLeader s (w_leader worker) of
                       None \<Rightarrow> s
                     | Some leaderWorkers \<Rightarrow>
                         s\<lparr>workersByLeader :=
                             (workersByLeader s)(w_leader worker \<mapsto> remove1 workerName leaderWorkers)\<rparr>)
           in s1\<lparr>workers := (workers s1)(workerName := None)\<rparr>))"

definition removeLeader :: "string \<Rightarrow> relay \<Rightarrow> relay" where
  "removeLeader leaderName s = s\<lparr>leaders := (leaders s)(leaderName := None)\<rparr>"

datatype route_result = Failure string | Success string

definition routeCommand ::
  "string \<Rightarrow> string \<Rightarrow> string \<Rightarrow> string list \<Rightarrow> string \<Rightarrow> nat \<Rightarrow> relay \<Rightarrow> relay \<times> route_result" where
  "routeCommand leaderName workerName command args commandId now s =
     (case workers s workerName of
        None \<Rightarrow> (s, Failure ''Worker not found'')
      | Some worker \<Rightarrow>
          if w_leader worker \<noteq> leaderName
          then (s, Failure ''Worker not assigned to this leader'')
          else
            (let s1 = s\<lparr>commandQueue := (commandQueue s)(commandId \<mapsto>
                         \<lparr>c_leader = leaderName, c_worker = workerName, c_command = command,
                          c_args = args, c_timestamp = now, c_status = ''sent''\<rparr>)\<rparr>;
                 s2 = s1\<lparr>emitted := emitted s1 @ [WorkerCommand (w_socket worker) command args commandId]\<rparr>
             in (s2, Success commandId)))"

text \<open>Decimal rendering of an array index inside a template literal.\<close>

definition digit_char :: "nat \<Rightarrow> char" where
  "digit_char d = ''0123456789'' ! d"

function string_of_nat :: "nat \<Rightarrow> string" where
  "string_of_nat n =
     (if n < 10 then [digit_char n] else string_of_nat (n div 10) @ [digit_char (n mod 10)])"
  by pat_completeness auto
termination
  by (relation "measure id") auto

declare string_of_nat.simps [simp del]

definition workerCommandId :: "string \<Rightarrow> nat \<Rightarrow> string" where
  "workerCommandId commandId idx = commandId @ ''-'' @ string_of_nat idx"

text \<open>
  The \<^verbatim>\<open>forEach\<close> of \<^verbatim>\<open>routeGroupCommand\<close>, from index \<open>idx\<close> on; \<open>now i\<close> is the clock
  read by the call for index \<open>i\<close>.
\<close>

fun routeEach ::
  "string \<Rightarrow> string \<Rightarrow> string list \<Rightarrow> string \<Rightarrow> (nat \<Rightarrow> nat) \<Rightarrow> nat \<Rightarrow> string list \<Rightarrow>
   relay \<times> (string \<times> route_result) list \<Rightarrow> relay \<times> (string \<times> route_result) list" where
  "routeEach leaderName command args commandId now idx [] acc = acc"
| "routeEach leaderName command args commandId now idx (workerName # rest) (s, results) =
     (let (s', result) =
            routeCommand leaderName workerName command args (workerCommandId commandId idx) (now idx) s
      in routeEach leaderName command args commandId now (Suc idx) rest
           (s', results @ [(workerName, result)]))"

definition getWorkersForLeader :: "relay \<Rightarrow> string \<Rightarrow> string list" where
  "getWorkersForLeader s leaderName =
     (case workersByLeader s leaderName of Some ws \<Rightarrow> ws | None \<Rightarrow> [])"

definition routeGroupCommand ::
  "string \<Rightarrow> string \<Rightarrow> string list \<Rightarrow> string \<Rightarrow> (nat \<Rightarrow> nat) \<Rightarrow> relay \<Rightarrow>
   relay \<times> (string \<times> route_result) list" where
  "routeGroupCommand leaderName command args commandId now s =
     routeEach leaderName command args commandId now 0 (getWorkersForLeader s leaderName) (s, [])"

text \<open>
  \<^verbatim>\<open>updateWorkerStatus\<close>. \<^verbatim>\<open>if (status.commandId)\<close> is false for an absent and for an
  empty identifier.
\<close>

definition updateWorkerStatus :: "string \<Rightarrow> status_report \<Rightarrow> nat \<Rightarrow> relay \<Rightarrow> relay" where
  "updateWorkerStatus workerName status now s =
     (case workers s workerName of
        None \<Rightarrow> s
      | Some worker \<Rightarrow>
          (let worker' = worker\<lparr>w_status := st_status status, w_lastUpdate := now,
                 w_position := (case st_position status of Some p \<Rightarrow> Some p | None \<Rightarrow> w_position worker),
                 w_health := (case st_health status of Some h \<Rightarrow> h | None \<Rightarrow> w_health worker),
                 w_food := (case st_food status of Some f \<Rightarrow> f | None \<Rightarrow> w_food worker)\<rparr>;
               s1 = s\<lparr>workers := (workers s)(workerName \<mapsto> worker')\<rparr>;
               s2 = (case st_commandId status of
                       None \<Rightarrow> s1
                     | Some cid \<Rightarrow>
                         if cid = [] then s1
                         else (case commandQueue s1 cid of
                                 None \<Rightarrow> s1
                               | Some cmd \<Rightarrow>
                                   (let s1' = s1\<lparr>commandQueue :=
                                                (commandQueue s1)(cid \<mapsto> cmd\<lparr>c_status := st_status status\<rparr>)\<rparr>
                                    in if st_status status = ''completed'' \<or> st_status status = ''error''
                                       then s1'\<lparr>timers := timers s1' @ [(60000, cid)]\<rparr>
                                       else s1')))
           in case leaders s2 (w_leader worker') of
                None \<Rightarrow> s2
              | Some leader \<Rightarrow>
                  (case l_socket leader of
                     None \<Rightarrow> s2
                   | Some sock \<Rightarrow>
                       s2\<lparr>emitted := emitted s2 @ [WorkerStatusUpdate sock workerName status]\<rparr>)))"

text \<open>
  Every worker listed for a leader has a worker record that names this leader: the
  condition under which every \<^verbatim>\<open>routeCommand\<close> of a group command passes its two guards.
\<close>

definition all_assigned :: "relay \<Rightarrow> string \<Rightarrow> string list \<Rightarrow> bool" where
  "all_assigned s L ws = (\<forall>w \<in> set ws. \<exists>r. workers s w = Some r \<and> w_leader r = L)"

text \<open>Example states of the relay, built by the relay's own operations.\<close>

definition relay_two_workers :: relay where
  "relay_two_workers = registerWorker ''w1'' ''L'' 1 0 (registerWorker ''w0'' ''L'' 0 0 new_relay)"

text \<open>
  Worker \<open>w\<close> registers with leader \<open>L1\<close>, then worker \<open>v\<close> does, then \<open>w\<close> registers
  again, now with leader \<open>L2\<close>.
\<close>

definition relay_worker_moved :: relay where
  "relay_worker_moved =
     registerWorker ''w'' ''L2'' 0 2
       (registerWorker ''v'' ''L1'' 1 1 (registerWorker ''w'' ''L1'' 0 0 new_relay))"

definition report_completed :: status_report where
  "report_completed = \<lparr>st_status = ''completed'', st_position = None, st_health = Some 18,
                        st_food = None, st_commandId = Some ''g-0''\<rparr>"

section \<open>Emotional state store\<close>

text \<open>
  \<^verbatim>\<open>SoulState\<close>. The personality is the object handed to the constructor; a field the
  profile does not set is \<open>None\<close>. \<^verbatim>\<open>x || d\<close> on a number takes the default \<open>d\<close> for an
  absent value and for zero, on a string for an absent and for the empty string.
\<close>

record delay_range =
  d_min :: real
  d_max :: real

record personality =
  chattiness :: "real option"
  responseDelay :: "delay_range option"
  emotionalVolatility :: "real option"
  angerThreshold :: "real option"
  currentEmotion :: "string option"

definition num_or :: "real option \<Rightarrow> real \<Rightarrow> real" where
  "num_or v d = (case v of None \<Rightarrow> d | Some x \<Rightarrow> if x = 0 then d else x)"

definition str_or :: "string option \<Rightarrow> string \<Rightarrow> string" where
  "str_or v d = (case v of None \<Rightarrow> d | Some x \<Rightarrow> if x = [] then d else x)"

record emotion_change =
  ec_from :: string
  ec_to :: string
  ec_intensity :: real
  ec_timestamp :: nat

record grievance =
  g_player :: string
  g_count :: nat
  g_lastTime :: nat
  g_reasons :: "string list"

record memory_entry =
  me_type :: string
  me_content :: string
  me_timestamp :: nat

record soul_state =
  botName :: string
  personality :: personality
  emotion :: string
  emotionIntensity :: real
  mood :: string
  emotionHistory :: "emotion_change list"
  lastEmotionChange :: nat
  emotionDecayRate :: real
  workingMemory :: "memory_entry list"
  maxMemorySize :: nat
  lastSpoke :: nat
  conversationPartner :: "string option"
  silenceDuration :: nat
  currentActivity :: string
  currentGoal :: "string option"
  recentSpeakers :: "string list"
  botsWhoResponded :: "string list"
  frustrationLevel :: real
  grievances :: "grievance list"

text \<open>The constructor; \<open>now\<close> is the clock it reads for \<^verbatim>\<open>lastEmotionChange\<close>.\<close>

definition new_soul_state :: "string \<Rightarrow> personality \<Rightarrow> nat \<Rightarrow> soul_state" where
  "new_soul_state name p now =
     \<lparr>botName = name, personality = p, emotion = ''calm'', emotionIntensity = 0.5,
      mood = ''neutral'', emotionHistory = [], lastEmotionChange = now, emotionDecayRate = 0.1,
      workingMemory = [], maxMemorySize = 10, lastSpoke = 0, conversationPartner = None,
      silenceDuration = 0, currentActivity = ''idle'', currentGoal = None,
      recentSpeakers = [], botsWhoResponded = [], frustrationLevel = 0, grievances = []\<rparr>"

definition volatility_of :: "personality \<Rightarrow> real" where
  "volatility_of p = num_or (emotionalVolatility p) 0.5"

definition angerThreshold_of :: "personality \<Rightarrow> real" where
  "angerThreshold_of p = num_or (angerThreshold p) 0.5"

text \<open>
  The anger check of \<^verbatim>\<open>setEmotion\<close>: a request for \<open>angry\<close> below the anger threshold
  becomes \<open>frustrated\<close> or \<open>annoyed\<close>; any other request is kept.
\<close>

definition downgradeAnger :: "soul_state \<Rightarrow> string \<Rightarrow> string" where
  "downgradeAnger s e =
     (if e = ''angry'' then
        (if frustrationLevel s < angerThreshold_of (personality s)
         then (if frustrationLevel s > angerThreshold_of (personality s) * 0.5
               then ''frustrated'' else ''annoyed'')
         else e)
      else e)"

text \<open>
  The stoic roll of \<^verbatim>\<open>setEmotion\<close>: with change resistance above one half a calm agent
  stays calm when the random draw is below the resistance minus 0.3.
\<close>

definition resistsChange :: "soul_state \<Rightarrow> real \<Rightarrow> bool" where
  "resistsChange s rnd =
     (let changeResistance = 1 - volatility_of (personality s)
      in changeResistance > 0.5 \<and> emotion s = ''calm'' \<and> rnd < changeResistance - 0.3)"

definition setEmotion :: "string \<Rightarrow> real \<Rightarrow> real \<Rightarrow> nat \<Rightarrow> soul_state \<Rightarrow> soul_state" where
  "setEmotion requested intensity rnd now s =
     (let previousEmotion = emotion s;
          volatility = volatility_of (personality s);
          e = downgradeAnger s requested
      in if resistsChange s rnd then s
         else
           (let newIntensity = max 0 (min 1 (intensity * (0.5 + volatility * 0.5)));
                hist = emotionHistory s @
                         [\<lparr>ec_from = previousEmotion, ec_to = e, ec_intensity = newIntensity,
                           ec_timestamp = now\<rparr>];
                frustrationGain = 0.2 * (0.5 + volatility * 0.5)
            in s\<lparr>emotion := e,
                 emotionIntensity := newIntensity,
                 lastEmotionChange := now,
                 emotionHistory := (if length hist > 10 then tl hist else hist),
                 personality := (personality s)\<lparr>currentEmotion := Some e\<rparr>,
                 frustrationLevel :=
                   (if e \<in> set [''angry'', ''frustrated'', ''annoyed'', ''irritated'']
                    then min 1 (frustrationLevel s + frustrationGain)
                    else if e \<in> set [''happy'', ''calm'', ''grateful'']
                    then max 0 (frustrationLevel s - 0.1)
                    else frustrationLevel s)\<rparr>))"

fun bumpGrievance :: "string \<Rightarrow> string \<Rightarrow> nat \<Rightarrow> grievance list \<Rightarrow> grievance list option" where
  "bumpGrievance playerName reason now [] = None"
| "bumpGrievance playerName reason now (g # gs) =
     (if g_player g = playerName
      then Some (g\<lparr>g_count := g_count g + 1, g_lastTime := now,
                   g_reasons := g_reasons g @ [reason]\<rparr> # gs)
      else map_option ((#) g) (bumpGrievance playerName reason now gs))"

text \<open>\<^verbatim>\<open>addGrievance\<close>: the first grievance against the player is updated, or one is appended.\<close>

definition addGrievance :: "string \<Rightarrow> string \<Rightarrow> nat \<Rightarrow> soul_state \<Rightarrow> soul_state" where
  "addGrievance playerName reason now s =
     (case bumpGrievance playerName reason now (grievances s) of
        Some gs \<Rightarrow> s\<lparr>grievances := gs\<rparr>
      | None \<Rightarrow> s\<lparr>grievances := grievances s @
                    [\<lparr>g_player = playerName, g_count = 1, g_lastTime = now, g_reasons = [reason]\<rparr>]\<rparr>)"

text \<open>
  \<^verbatim>\<open>decayEmotion\<close>; \<open>rnd\<close> is handed to the nested \<^verbatim>\<open>setEmotion('calm', 0.5)\<close>, which reads
  the clock again.
\<close>

definition decayEmotion :: "real \<Rightarrow> nat \<Rightarrow> soul_state \<Rightarrow> soul_state" where
  "decayEmotion rnd now s =
     (let timeSinceChange = int now - int (lastEmotionChange s)
      in if timeSinceChange > 60000 \<and> emotion s \<noteq> ''calm'' \<and> emotionIntensity s > 0.3
         then (let s1 = s\<lparr>emotionIntensity := max 0.3 (emotionIntensity s - emotionDecayRate s)\<rparr>
               in if emotionIntensity s1 \<le> 0.3 then setEmotion ''calm'' 0.5 rnd now s1 else s1)
         else s)"

text \<open>The events that change an emotional state, and a run of them from left to right.\<close>

datatype soul_event =
    SetEmotion string real real nat
  | AddGrievance string string nat
  | DecayEmotion real nat

fun soul_step :: "soul_state \<Rightarrow> soul_event \<Rightarrow> soul_state" where
  "soul_step s (SetEmotion e intensity rnd now) = setEmotion e intensity rnd now s"
| "soul_step s (AddGrievance playerName reason now) = addGrievance playerName reason now s"
| "soul_step s (DecayEmotion rnd now) = decayEmotion rnd now s"

definition soul_run :: "soul_state \<Rightarrow> soul_event list \<Rightarrow> soul_state" where
  "soul_run s evs = foldl soul_step s evs"

definition emotion_bounded :: "soul_state \<Rightarrow> bool" where
  "emotion_bounded s =
     (0 \<le> emotionIntensity s \<and> emotionIntensity s \<le> 1
      \<and> 0 \<le> frustrationLevel s \<and> frustrationLevel s \<le> 1)"

definition default_personality :: personality where
  "default_personality =
     \<lparr>chattiness = None, responseDelay = None, emotionalVolatility = None,
      angerThreshold = None, currentEmotion = None\<rparr>"

text \<open>
  The invariant carried through a run: the two bounded values, the decay rate the
  constructor sets, and an effective volatility of at least \<open>-1\<close> (so that the
  frustration gain is not negative).
\<close>

definition soul_inv :: "soul_state \<Rightarrow> bool" where
  "soul_inv s = (emotion_bounded s \<and> emotionDecayRate s = 0.1 \<and> - 1 \<le> volatility_of (personality s))"

text \<open>Example runs and states of the emotional state store.\<close>

definition stormy_events :: "soul_event list" where
  "stormy_events =
     [SetEmotion ''angry'' 7 0.9 10, SetEmotion ''irritated'' (- 3) 0.1 20,
      AddGrievance ''Steve'' ''attacked me'' 30, DecayEmotion 0.5 70000,
      SetEmotion ''happy'' 0.5 0.2 70010]"

definition fresh_blaze :: soul_state where
  "fresh_blaze = new_soul_state ''Blaze'' default_personality 0"

definition heated_blaze :: soul_state where
  "heated_blaze =
     soul_run fresh_blaze
       [SetEmotion ''irritated'' 0.5 0.9 1, SetEmotion ''irritated'' 0.5 0.9 2,
        SetEmotion ''irritated'' 0.5 0.9 3, SetEmotion ''irritated'' 0.5 0.9 4]"

definition stoic_personality :: personality where
  "stoic_personality = default_personality\<lparr>emotionalVolatility := Some 0.2\<rparr>"

definition stoic_blaze :: soul_state where
  "stoic_blaze = new_soul_state ''Blaze'' stoic_personality 0"

section \<open>Strings\<close>

text \<open>
  The string operations of the source on ASCII text: \<^verbatim>\<open>toLowerCase\<close>, \<^verbatim>\<open>trim\<close>,
  \<^verbatim>\<open>includes\<close>, \<^verbatim>\<open>split\<close> and the regular expressions the decision code uses.
\<close>

definition lower_char :: "char \<Rightarrow> char" where
  "lower_char c =
     (case map_of (zip ''ABCDEFGHIJKLMNOPQRSTUVWXYZ'' ''abcdefghijklmnopqrstuvwxyz'') c of
        Some l \<Rightarrow> l | None \<Rightarrow> c)"

definition toLowerCase :: "string \<Rightarrow> string" where
  "toLowerCase s = map lower_char s"

text \<open>White space as \<^verbatim>\<open>trim\<close> and \<^verbatim>\<open>\s\<close> see it: space, tab, line feed, vertical tab, form feed, carriage return.\<close>

definition isSpace :: "char \<Rightarrow> bool" where
  "isSpace c = (c \<in> set [CHR '' '', CHR 0x09, CHR 0x0A, CHR 0x0B, CHR 0x0C, CHR 0x0D])"

definition trim :: "string \<Rightarrow> string" where
  "trim s = rev (dropWhile isSpace (rev (dropWhile isSpace s)))"

fun startsWith :: "string \<Rightarrow> string \<Rightarrow> bool" where
  "startsWith s [] = True"
| "startsWith [] (p # ps) = False"
| "startsWith (c # cs) (p # ps) = (c = p \<and> startsWith cs ps)"

text \<open>\<^verbatim>\<open>s.includes(p)\<close>: \<open>p\<close> occurs in \<open>s\<close> as a contiguous run.\<close>

fun includes_str :: "string \<Rightarrow> string \<Rightarrow> bool" where
  "includes_str [] p = (p = [])"
| "includes_str (c # cs) p = (startsWith (c # cs) p \<or> includes_str cs p)"

text \<open>\<^verbatim>\<open>phrases.some(p => s.includes(p))\<close>, the test each phrase loop performs.\<close>

definition includesAny :: "string \<Rightarrow> string list \<Rightarrow> bool" where
  "includesAny s phrases = list_ex (includes_str s) phrases"

text \<open>\<^verbatim>\<open>s.split(/[\s\n.,!?]/)[0]\<close>: the text before the first separator.\<close>

definition isSeparator :: "char \<Rightarrow> bool" where
  "isSeparator c = (isSpace c \<or> c \<in> set ''.,!?'')"

definition firstWord :: "string \<Rightarrow> string" where
  "firstWord s = takeWhile (\<lambda>c. \<not> isSeparator c) s"

text \<open>\<^verbatim>\<open>s.split('\n')\<close>\<close>

fun splitLines :: "string \<Rightarrow> string list" where
  "splitLines [] = [[]]"
| "splitLines (c # cs) =
     (if c = CHR 0x0A then [] # splitLines cs
      else (case splitLines cs of [] \<Rightarrow> [[c]] | l # ls \<Rightarrow> (c # l) # ls))"

text \<open>\<^verbatim>\<open>xs.join('\n')\<close>\<close>

fun joinLines :: "string list \<Rightarrow> string" where
  "joinLines [] = []"
| "joinLines [l] = l"
| "joinLines (l # ls) = l @ [CHR 0x0A] @ joinLines ls"

text \<open>\<^verbatim>\<open>xs.slice(-n)\<close>: the last \<open>n\<close> elements.\<close>

definition lastN :: "nat \<Rightarrow> 'a list \<Rightarrow> 'a list" where
  "lastN n xs = drop (length xs - n) xs"

definition isWordChar :: "char \<Rightarrow> bool" where
  "isWordChar c =
     (c \<in> set ''ABCDEFGHIJKLMNOPQRSTUVWXYZabcdefghijklmnopqrstuvwxyz0123456789_'')"

text \<open>
  \<^verbatim>\<open>line.match(/^(\w+):/)\<close>: a non-empty run of word characters at the start of the
  line, followed by a colon; the run is the speaker.
\<close>

definition matchSpeaker :: "string \<Rightarrow> string option" where
  "matchSpeaker line =
     (let w = takeWhile isWordChar line
      in case dropWhile isWordChar line of
           [] \<Rightarrow> None
         | c # rest \<Rightarrow> if w \<noteq> [] \<and> c = CHR '':'' then Some w else None)"

section \<open>Response decision of the cognitive engine\<close>

text \<open>
  \<^verbatim>\<open>CognitiveEngine.shouldRespond\<close>. The reply of \<^verbatim>\<open>this.query\<close> is the argument
  \<open>reply\<close> (\<open>None\<close> is the \<^verbatim>\<open>null\<close> that \<^verbatim>\<open>query\<close> returns when the provider call
  fails); the result records how many times the query was made. The three random draws
  of the function are the throttle draw, the draw of the enthusiastic override and the
  draw of the bored override. Soul events for the user interface are not modelled.
\<close>

definition farewellPhrases :: "string list" where
  "farewellPhrases =
     [''bye'', ''goodbye'', ''see you'', ''see ya'', ''cya'', ''later'', ''take care'',
      ''catch you'', ''talk to you'', ''until next'', ''for now'', ''gotta go'',
      ''heading out'', ''signing off'', ''peace out'', ''farewell'']"

definition agreementPhrases :: "string list" where
  "agreementPhrases =
     [''sounds good'', ''got it'', ''understood'', ''will do'', ''on it'', ''roger'',
      ''alright'', ''okay'', ''ok'', ''sure thing'', ''no problem'', ''np'',
      ''you too'', ''same to you'', ''likewise'', ''back at you'',
      ''agreed'', ''exactly'', ''right'', ''same'', ''true'', ''indeed'', ''yep'', ''yeah'']"

definition quickEmotionCheck :: "string \<Rightarrow> string \<Rightarrow> string \<Rightarrow> string" where
  "quickEmotionCheck message name currentEm =
     (let msgLower = toLowerCase message; botLower = toLowerCase name
      in if includes_str msgLower ''stupid'' \<or> includes_str msgLower ''idiot'' \<or> includes_str msgLower ''useless''
         then ''angry''
         else if includes_str msgLower ''shut up'' \<or> includes_str msgLower ''be quiet'' \<or> includes_str msgLower ''stop talking''
         then ''annoyed''
         else if includes_str msgLower ''you suck'' \<or> includes_str msgLower ''youre bad'' \<or> includes_str msgLower ''you're bad''
         then ''frustrated''
         else if includes_str msgLower ''hurry up'' \<or> includes_str msgLower ''faster'' \<or> includes_str msgLower ''too slow''
         then ''irritated''
         else if includes_str msgLower ''good job'' \<or> includes_str msgLower ''nice work'' \<or> includes_str msgLower ''well done''
         then ''proud''
         else if includes_str msgLower ''thank'' \<or> includes_str msgLower ''appreciate''
         then ''grateful''
         else if includes_str msgLower ''!'' \<and>
                 (includes_str msgLower ''awesome'' \<or> includes_str msgLower ''amazing'' \<or> includes_str msgLower ''cool'')
         then ''excited''
         else if includes_str msgLower ''what'' \<and> includes_str msgLower ''?''
         then ''curious''
         else if includes_str msgLower ''check out'' \<or> includes_str msgLower ''look at'' \<or> includes_str msgLower ''found something''
         then ''curious''
         else if includes_str msgLower botLower then ''focused''
         else if includes_str message ''?'' then ''helpful''
         else currentEm)"

text \<open>The loop over the last eight non-blank lines: the count and the last speaker seen.\<close>

fun countTurns :: "string \<Rightarrow> string \<Rightarrow> string list \<Rightarrow> nat \<times> string \<Rightarrow> nat \<times> string" where
  "countTurns name sender [] acc = acc"
| "countTurns name sender (line # rest) (n, lastSpeaker) =
     (case matchSpeaker line of
        None \<Rightarrow> countTurns name sender rest (n, lastSpeaker)
      | Some speaker \<Rightarrow>
          countTurns name sender rest
            ((if (speaker = name \<and> lastSpeaker = sender) \<or> (speaker = sender \<and> lastSpeaker = name)
              then n + 1 else n), speaker))"

definition backAndForthCount :: "string \<Rightarrow> string \<Rightarrow> string \<Rightarrow> nat" where
  "backAndForthCount name sender recentContext =
     (let ls = filter (\<lambda>l. trim l \<noteq> []) (splitLines recentContext)
      in fst (countTurns name sender (lastN 8 ls) (0, [])))"

record engine_params =
  ep_botName :: string
  ep_message :: string
  ep_sender :: string
  ep_recentContext :: string
  ep_personality :: personality

record engine_draws =
  rThrottle :: real
  rEnthusiastic :: real
  rBored :: real

record engine_decision =
  ed_shouldRespond :: bool
  ed_reason :: string
  ed_emotion :: string
  ed_emotionInfluenced :: bool
  ed_oracleCalls :: nat

definition mk_decision :: "bool \<Rightarrow> string \<Rightarrow> string \<Rightarrow> bool \<Rightarrow> nat \<Rightarrow> engine_decision" where
  "mk_decision r why em infl calls =
     \<lparr>ed_shouldRespond = r, ed_reason = why, ed_emotion = em, ed_emotionInfluenced = infl,
      ed_oracleCalls = calls\<rparr>"

text \<open>The reading of the oracle's reply: its first word, else a word it contains, else \<open>wait\<close>.\<close>

definition parseDecision :: "string option \<Rightarrow> string" where
  "parseDecision reply =
     (let rawDecision = trim (toLowerCase (str_or reply ''skip''));
          w = firstWord rawDecision
      in if w \<in> set [''respond'', ''skip'', ''wait''] then w
         else if includes_str rawDecision ''respond'' then ''respond''
         else if includes_str rawDecision ''skip'' then ''skip''
         else ''wait'')"

text \<open>The part of the function after the throttle: the oracle call and the emotion overrides.\<close>

definition oracleStage :: "engine_params \<Rightarrow> string option \<Rightarrow> engine_draws \<Rightarrow> engine_decision" where
  "oracleStage p reply draws =
     (let chat = num_or (chattiness (ep_personality p)) 0.5;
          isExtroverted = chat > 0.5;
          decision = parseDecision reply;
          respond = (decision = ''respond'');
          currentEm = str_or (currentEmotion (ep_personality p)) ''calm'';
          em = quickEmotionCheck (ep_message p) (ep_botName p) currentEm;
          msgLower = toLowerCase (ep_message p)
      in if \<not> respond \<and> em \<in> set [''angry'', ''frustrated'', ''annoyed'', ''irritated'']
            \<and> (includes_str msgLower (toLowerCase (ep_botName p)) \<or> includes_str msgLower ''stupid''
               \<or> includes_str msgLower ''useless'' \<or> includes_str msgLower ''you suck''
               \<or> includes_str msgLower ''shut up'')
         then mk_decision True ''provoked'' em True 1
         else if \<not> respond \<and> em \<in> set [''happy'', ''excited'', ''playful''] \<and> isExtroverted
                 \<and> rEnthusiastic draws < 0.3
         then mk_decision True ''enthusiastic'' em True 1
         else if respond \<and> em = ''bored'' \<and> decision \<noteq> ''directly_mentioned''
                 \<and> rBored draws < 0.4
         then mk_decision False ''too_bored'' em False 1
         else mk_decision respond decision em False 1)"

definition engine_shouldRespond :: "engine_params \<Rightarrow> string option \<Rightarrow> engine_draws \<Rightarrow> engine_decision" where
  "engine_shouldRespond p reply draws =
     (let msgLower = trim (toLowerCase (ep_message p));
          currentEm = str_or (currentEmotion (ep_personality p)) ''calm''
      in if includesAny msgLower farewellPhrases
         then mk_decision False ''farewell_detected'' currentEm False 0
         else if length msgLower < 50 \<and> includesAny msgLower agreementPhrases
         then mk_decision False ''acknowledgment'' currentEm False 0
         else
           (let n = (if ep_recentContext p \<noteq> []
                     then backAndForthCount (ep_botName p) (ep_sender p) (ep_recentContext p)
                     else 0)
            in if n \<ge> 2 \<and> (rThrottle draws < min 0.95 (0.6 + real n * 0.15) \<or> n \<ge> 4)
               then mk_decision False ''conversation_limit'' currentEm False 0
               else oracleStage p reply draws))"

section \<open>Conversation coordinator\<close>

text \<open>
  \<^verbatim>\<open>ConversationCoordinator\<close>. The soul state of the deciding bot is passed in and
  returned; the recent messages of the soul state manager, the last response record, the
  clock and the random draws are arguments. \<open>ce_engineAvailable\<close> is false when the
  lazy import of the cognitive engine or its call throws, the case the \<^verbatim>\<open>catch\<close> of
  \<^verbatim>\<open>shouldRespond\<close> handles.
\<close>

datatype urgency = Fast | Normal | Slow | VerySlow

text \<open>The multiplier of \<^verbatim>\<open>getBaseDelay\<close>: the urgency, then the three emotion factors.\<close>

definition delayMultiplier :: "soul_state \<Rightarrow> urgency \<Rightarrow> real" where
  "delayMultiplier st u =
     (let m0 = (case u of Fast \<Rightarrow> 0.5 | Normal \<Rightarrow> 1 | Slow \<Rightarrow> 1.5 | VerySlow \<Rightarrow> 2.5);
          m1 = (if emotion st = ''excited'' then m0 * 0.7 else m0);
          m2 = (if emotion st = ''cautious'' then m1 * 1.3 else m1)
      in if emotion st = ''bored'' then m2 * 1.5 else m2)"

text \<open>\<^verbatim>\<open>personality.responseDelay || { min: 2000, max: 5000 }\<close>\<close>

definition baseDelayOf :: "soul_state \<Rightarrow> delay_range" where
  "baseDelayOf st =
     (case responseDelay (personality st) of
        Some d \<Rightarrow> d | None \<Rightarrow> \<lparr>d_min = 2000, d_max = 5000\<rparr>)"

definition getBaseDelay :: "soul_state \<Rightarrow> urgency \<Rightarrow> real \<Rightarrow> int" where
  "getBaseDelay st u rnd =
     (let baseDelay = baseDelayOf st;
          multiplier = delayMultiplier st u;
          lo = d_min baseDelay * multiplier;
          hi = d_max baseDelay * multiplier
      in \<lfloor>rnd * (hi - lo) + lo\<rfloor>)"

record last_response =
  lr_username :: "string option"
  lr_responder :: "string option"
  lr_timestamp :: nat
  lr_message :: "string option"

record coordinator_decision =
  cd_shouldRespond :: bool
  cd_delay :: int
  cd_reason :: string
  cd_emotion :: "string option"

record coordinator_env =
  ce_recentMessages :: "(string \<times> string) list"
  ce_lastResponse :: last_response
  ce_engineAvailable :: bool
  ce_reply :: "string option"
  ce_engineDraws :: engine_draws
  ce_rResist :: real
  ce_rDelay :: real
  ce_rFallback :: real
  ce_now :: nat

text \<open>\<^verbatim>\<open>SoulStateManager.getRecentContext(limit)\<close>\<close>

definition getRecentContext :: "nat \<Rightarrow> (string \<times> string) list \<Rightarrow> string" where
  "getRecentContext limit msgs =
     joinLines (map (\<lambda>(sender, message). sender @ '': '' @ message) (lastN limit msgs))"

definition simpleFallback :: "string \<Rightarrow> string \<Rightarrow> soul_state \<Rightarrow> coordinator_env \<Rightarrow> coordinator_decision" where
  "simpleFallback name message st env =
     (let timeSinceLastResponse = int (ce_now env) - int (lr_timestamp (ce_lastResponse env))
      in if timeSinceLastResponse < 5000 \<and> lr_responder (ce_lastResponse env) \<noteq> Some name
         then \<lparr>cd_shouldRespond = False, cd_delay = 0, cd_reason = ''someone_responded'', cd_emotion = None\<rparr>
         else if includes_str message ''?''
         then \<lparr>cd_shouldRespond = True, cd_delay = getBaseDelay st Normal (ce_rDelay env),
               cd_reason = ''question'', cd_emotion = None\<rparr>
         else if ce_rFallback env < 0.2
         then \<lparr>cd_shouldRespond = True, cd_delay = getBaseDelay st Slow (ce_rDelay env),
               cd_reason = ''random'', cd_emotion = None\<rparr>
         else \<lparr>cd_shouldRespond = False, cd_delay = 0, cd_reason = ''skipped'', cd_emotion = None\<rparr>)"

definition urgencyOf :: "string \<Rightarrow> urgency" where
  "urgencyOf em =
     (if em \<in> set [''angry'', ''frustrated'', ''irritated''] then Fast
      else if em \<in> set [''excited'', ''happy''] then Fast
      else if em \<in> set [''bored'', ''tired''] then Slow
      else if em \<in> set [''cautious'', ''worried''] then Slow
      else Normal)"

text \<open>
  The search for another known bot named in the message, and the test
  \<^verbatim>\<open>if (mentionedOther)\<close>, which an empty name does not pass.
\<close>

definition mentionedOther :: "string \<Rightarrow> string \<Rightarrow> string list \<Rightarrow> string option" where
  "mentionedOther name message otherBots =
     find (\<lambda>other. toLowerCase other \<noteq> toLowerCase name
                    \<and> includes_str (toLowerCase message) (toLowerCase other)) otherBots"

definition otherBotMentioned :: "string \<Rightarrow> string \<Rightarrow> string list \<Rightarrow> bool" where
  "otherBotMentioned name message otherBots =
     (case mentionedOther name message otherBots of Some (c # cs) \<Rightarrow> True | _ \<Rightarrow> False)"

text \<open>
  \<^verbatim>\<open>ConversationCoordinator.shouldRespond\<close>: the decision, the soul state after it, and
  the number of oracle queries made.
\<close>

definition coordinator_shouldRespond ::
  "string \<Rightarrow> string \<Rightarrow> string \<Rightarrow> string list \<Rightarrow> soul_state \<Rightarrow> coordinator_env \<Rightarrow>
   coordinator_decision \<times> soul_state \<times> nat" where
  "coordinator_shouldRespond name username message otherBots st env =
     (let msgLower = toLowerCase message;
          botNameLower = toLowerCase name
      in if includes_str msgLower botNameLower
         then (let st1 = setEmotion ''attentive'' 0.7 (ce_rResist env) (ce_now env) st
               in (\<lparr>cd_shouldRespond = True, cd_delay = getBaseDelay st1 Fast (ce_rDelay env),
                    cd_reason = ''directly_mentioned'', cd_emotion = None\<rparr>, st1, 0))
         else
           (if otherBotMentioned name message otherBots
            then (\<lparr>cd_shouldRespond = False, cd_delay = 0, cd_reason = ''other_bot_mentioned'',
                    cd_emotion = None\<rparr>, st, 0)
            else if \<not> ce_engineAvailable env then (simpleFallback name message st env, st, 0)
            else
              (let d = engine_shouldRespond
                         \<lparr>ep_botName = name, ep_message = message, ep_sender = username,
                          ep_recentContext = getRecentContext 4 (ce_recentMessages env),
                          ep_personality = personality st\<rparr>
                         (ce_reply env) (ce_engineDraws env);
                   emotionIntensity = (if ed_emotionInfluenced d then 0.8 else 0.5);
                   em = (if ed_emotion d = [] then ''calm'' else ed_emotion d);
                   st1 = setEmotion em emotionIntensity (ce_rResist env) (ce_now env) st;
                   st2 = (if ed_emotion d \<in> set [''angry'', ''frustrated'', ''annoyed'']
                          then addGrievance username (take 50 message) (ce_now env) st1
                          else st1)
               in if ed_shouldRespond d
                  then (\<lparr>cd_shouldRespond = True,
                          cd_delay = getBaseDelay st2 (urgencyOf (ed_emotion d)) (ce_rDelay env),
                          cd_reason = ed_reason d, cd_emotion = Some (ed_emotion d)\<rparr>,
                        st2, ed_oracleCalls d)
                  else (\<lparr>cd_shouldRespond = False, cd_delay = 0, cd_reason = ed_reason d,
                          cd_emotion = Some (ed_emotion d)\<rparr>, st2, ed_oracleCalls d))))"

section \<open>Thought tick of a leader\<close>

text \<open>
  \<^verbatim>\<open>Agent._startThoughtTick\<close>, \<^verbatim>\<open>_processThoughtTick\<close> and \<^verbatim>\<open>queueContext\<close>. A queued
  item is one of the three kinds of the pending-context queue, with the time it was
  queued. \<^verbatim>\<open>prompter.promptConvo\<close>, the command detection and the command execution
  are parameters; each call of \<^verbatim>\<open>promptConvo\<close> is counted in \<open>ls_oracleCalls\<close>.
\<close>

datatype context_item =
    WorkerReport string string "string option"
  | ChatMessage string string
  | Event string "string option"

record leader_state =
  ls_name :: string
  ls_isLeader :: bool
  ls_pendingContext :: "(context_item \<times> nat) list"
  ls_assignedWorkers :: "string list"
  ls_history :: "(string \<times> string) list"
  ls_oracleCalls :: nat
  ls_chatOut :: "string list"
  ls_historySaves :: nat

record tick_env =
  te_promptConvo :: "(string \<times> string) list \<Rightarrow> string option"
  te_hasCommand :: "string \<Rightarrow> bool"
  te_executeCommand :: "string \<Rightarrow> string option"

definition queueContext :: "context_item \<Rightarrow> nat \<Rightarrow> leader_state \<Rightarrow> leader_state \<times> bool" where
  "queueContext item now s =
     (if \<not> ls_isLeader s then (s, False)
      else (s\<lparr>ls_pendingContext := ls_pendingContext s @ [(item, now)]\<rparr>, True))"

definition isWorkerReport :: "context_item \<Rightarrow> bool" where
  "isWorkerReport c = (case c of WorkerReport w st d \<Rightarrow> True | _ \<Rightarrow> False)"

definition isChat :: "context_item \<Rightarrow> bool" where
  "isChat c = (case c of ChatMessage src m \<Rightarrow> True | _ \<Rightarrow> False)"

definition isEvent :: "context_item \<Rightarrow> bool" where
  "isEvent c = (case c of Event e d \<Rightarrow> True | _ \<Rightarrow> False)"

text \<open>The line the summary has for one item.\<close>

definition renderItem :: "context_item \<Rightarrow> string" where
  "renderItem c =
     (case c of
        WorkerReport w st d \<Rightarrow> ''- '' @ w @ '': '' @ st @ '' '' @ str_or d [] @ [CHR 0x0A]
      | ChatMessage src m \<Rightarrow> ''- '' @ src @ '': \"'' @ m @ ''\"'' @ [CHR 0x0A]
      | Event e d \<Rightarrow> ''- '' @ e @ '': '' @ str_or d [] @ [CHR 0x0A])"

fun joinComma :: "string list \<Rightarrow> string" where
  "joinComma [] = []"
| "joinComma [w] = w"
| "joinComma (w # ws) = w @ '', '' @ joinComma ws"

definition batchedMessage :: "context_item list \<Rightarrow> string list \<Rightarrow> string" where
  "batchedMessage contextBatch assigned =
     (let workerReports = filter isWorkerReport contextBatch;
          chatMessages = filter isChat contextBatch;
          events = filter isEvent contextBatch
      in (if length workerReports > 0
          then [CHR 0x0A] @ ''[WORKER REPORTS - '' @ string_of_nat (length workerReports) @ '' updates]''
               @ [CHR 0x0A] @ concat (map renderItem workerReports)
          else [])
       @ (if length chatMessages > 0
          then [CHR 0x0A] @ ''[CHAT MESSAGES - '' @ string_of_nat (length chatMessages) @ '' messages]''
               @ [CHR 0x0A] @ concat (map renderItem chatMessages)
          else [])
       @ (if length events > 0
          then [CHR 0x0A] @ ''[EVENTS - '' @ string_of_nat (length events) @ '' events]''
               @ [CHR 0x0A] @ concat (map renderItem events)
          else [])
       @ (if length assigned > 0
          then [CHR 0x0A] @ ''[YOUR WORKERS: '' @ joinComma assigned @ '']'' @ [CHR 0x0A]
               @ ''Use !commandWorker(worker_name, command, args) or !commandGroup(command, args) to direct workers.''
               @ [CHR 0x0A]
          else []))"

definition processThoughtTick :: "tick_env \<Rightarrow> leader_state \<Rightarrow> leader_state" where
  "processThoughtTick env s =
     (if ls_pendingContext s = [] then s
      else
        (let contextBatch = map fst (ls_pendingContext s);
             s1 = s\<lparr>ls_pendingContext := []\<rparr>;
             msg = batchedMessage contextBatch (ls_assignedWorkers s1);
             s2 = (if trim msg \<noteq> []
                   then
                     (let s3 = s1\<lparr>ls_history := ls_history s1 @ [(''system'', ''[THOUGHT TICK BATCH]'' @ msg)]\<rparr>;
                          res = te_promptConvo env (ls_history s3);
                          s4 = s3\<lparr>ls_oracleCalls := ls_oracleCalls s3 + 1\<rparr>
                      in case res of
                           None \<Rightarrow> s4
                         | Some r \<Rightarrow>
                             if trim r = [] then s4
                             else
                               (let s5 = s4\<lparr>ls_history := ls_history s4 @ [(ls_name s4, r)]\<rparr>;
                                    s6 = (if te_hasCommand env r
                                          then (case te_executeCommand env r of
                                                  None \<Rightarrow> s5
                                                | Some out \<Rightarrow>
                                                    if out = [] then s5
                                                    else s5\<lparr>ls_history := ls_history s5 @ [(''system'', out)]\<rparr>)
                                          else s5)
                                in s6\<lparr>ls_chatOut := ls_chatOut s6 @ [r]\<rparr>))
                   else s1)
         in s2\<lparr>ls_historySaves := ls_historySaves s2 + 1\<rparr>))"

text \<open>The callback of the interval timer.\<close>

definition thoughtTick :: "tick_env \<Rightarrow> leader_state \<Rightarrow> leader_state" where
  "thoughtTick env s = (if ls_pendingContext s = [] then s else processThoughtTick env s)"

text \<open>Queueing a list of items, with the time each is queued.\<close>

fun queueAll :: "(context_item \<times> nat) list \<Rightarrow> leader_state \<Rightarrow> leader_state" where
  "queueAll [] s = s"
| "queueAll ((item, now) # rest) s = queueAll rest (fst (queueContext item now s))"

text \<open>An example leader, an example oracle and three queued items.\<close>

definition idle_leader :: leader_state where
  "idle_leader =
     \<lparr>ls_name = ''Boss'', ls_isLeader = True, ls_pendingContext = [],
      ls_assignedWorkers = [''w0''], ls_history = [], ls_oracleCalls = 0, ls_chatOut = [],
      ls_historySaves = 0\<rparr>"

definition quiet_env :: tick_env where
  "quiet_env =
     \<lparr>te_promptConvo = (\<lambda>h. Some ''Keep mining.''), te_hasCommand = (\<lambda>r. False),
      te_executeCommand = (\<lambda>r. None)\<rparr>"

definition three_items :: "(context_item \<times> nat) list" where
  "three_items =
     [(WorkerReport ''w0'' ''completed'' None, 10), (ChatMessage ''Steve'' ''hello'', 20),
      (Event ''sunrise'' None, 30)]"

text \<open>A phrase that neither starts nor ends with white space: trimming the text does not change whether it occurs.\<close>

definition phrase_ok :: "string \<Rightarrow> bool" where
  "phrase_ok p = (p \<noteq> [] \<and> \<not> isSpace (hd p) \<and> \<not> isSpace (last p))"

text \<open>
  A message reaches the back-and-forth stage of the engine when neither the farewell
  check nor the acknowledgment check returned before it.
\<close>

definition reachesThrottle :: "engine_params \<Rightarrow> bool" where
  "reachesThrottle p =
     (let msgLower = trim (toLowerCase (ep_message p))
      in \<not> includesAny msgLower farewellPhrases
         \<and> \<not> (length msgLower < 50 \<and> includesAny msgLower agreementPhrases))"

text \<open>Example inputs of the engine.\<close>

definition engine_input :: "string \<Rightarrow> string \<Rightarrow> engine_params" where
  "engine_input message recent =
     \<lparr>ep_botName = ''Blaze'', ep_message = message, ep_sender = ''Steve'',
      ep_recentContext = recent, ep_personality = default_personality\<rparr>"

definition draws_of :: "real \<Rightarrow> engine_draws" where
  "draws_of r = \<lparr>rThrottle = r, rEnthusiastic = r, rBored = r\<rparr>"

text \<open>
  Example surroundings of a decision: the engine loads, the oracle query returns
  \<^verbatim>\<open>null\<close>, nobody has responded yet.
\<close>

definition oracle_down_env :: coordinator_env where
  "oracle_down_env =
     \<lparr>ce_recentMessages = [(''Steve'', ''why?'')],
      ce_lastResponse = \<lparr>lr_username = None, lr_responder = None, lr_timestamp = 0, lr_message = None\<rparr>,
      ce_engineAvailable = True, ce_reply = None, ce_engineDraws = draws_of 0.5,
      ce_rResist = 0.1, ce_rDelay = 0.5, ce_rFallback = 0.1, ce_now = 100000\<rparr>"

definition engine_missing_env :: coordinator_env where
  "engine_missing_env = oracle_down_env\<lparr>ce_engineAvailable := False\<rparr>"

text \<open>Whether the configured delay range, or the default one, is a range of non-negative delays.\<close>

definition delayRangeOk :: "soul_state \<Rightarrow> bool" where
  "delayRangeOk st = (0 \<le> d_min (baseDelayOf st) \<and> d_min (baseDelayOf st) \<le> d_max (baseDelayOf st))"

text \<open>\<^verbatim>\<open>simpleFallback\<close>'s first test: another responder answered less than five seconds ago.\<close>

definition someoneResponded :: "string \<Rightarrow> coordinator_env \<Rightarrow> bool" where
  "someoneResponded name env =
     (int (ce_now env) - int (lr_timestamp (ce_lastResponse env)) < 5000
      \<and> lr_responder (ce_lastResponse env) \<noteq> Some name)"

text \<open>
  Six alternating messages between \<open>Blaze\<close> and \<open>Steve\<close> in the shared recent messages,
  the last one the incoming message; the oracle would reply \<open>respond\<close> and the throttle
  draw is 0.96.
\<close>

definition long_exchange :: "(string \<times> string) list" where
  "long_exchange =
     [(''Blaze'', ''a''), (''Steve'', ''b''), (''Blaze'', ''c''), (''Steve'', ''d''),
      (''Blaze'', ''e''), (''Steve'', ''nice weather'')]"

definition long_exchange_env :: coordinator_env where
  "long_exchange_env =
     \<lparr>ce_recentMessages = long_exchange,
      ce_lastResponse = \<lparr>lr_username = Some ''Steve'', lr_responder = Some ''Blaze'',
                         lr_timestamp = 90000, lr_message = Some ''e''\<rparr>,
      ce_engineAvailable = True, ce_reply = Some ''respond'', ce_engineDraws = draws_of 0.96,
      ce_rResist = 0.5, ce_rDelay = 0.5, ce_rFallback = 0.5, ce_now = 100000\<rparr>"

text \<open>A text without line feed.\<close>

definition singleLine :: "string \<Rightarrow> bool" where
  "singleLine l = (CHR 0x0A \<notin> set l)"

section \<open>Theorems: relationship ledger\<close>

lemma updateType_metrics [simp]:
  "trust (updateType r) = trust r" "fondness (updateType r) = fondness r"
  "respect (updateType r) = respect r"
  by (simp_all add: updateType_def Let_def)

lemma updateType_documented:
  "rtype (updateType r) = documented_type (metrics_mean r)"
  by (simp add: updateType_def documented_type_def metrics_mean_def Let_def)

lemma metrics_mean_updateType [simp]: "metrics_mean (updateType r) = metrics_mean r"
  by (simp add: metrics_mean_def)

text \<open>
  Claim C7. After every \<^verbatim>\<open>recordInteraction\<close> and every \<^verbatim>\<open>decay\<close> the stored type
  of a relationship is the type that the documented thresholds assign to the mean of the
  current trust, fondness and respect: above 0.6 best friend, in (0.3, 0.6] friend, in
  (0.1, 0.3] acquaintance, in (-0.2, 0.1] stranger, in (-0.5, -0.2] rival, at most -0.5
  enemy.
\<close>

theorem relationship_type_in_sync:
  "rtype (recordInteraction ty details now r) =
     documented_type (metrics_mean (recordInteraction ty details now r))
   \<and> rtype (decay hours r) = documented_type (metrics_mean (decay hours r))"
proof
  obtain r6 where "recordInteraction ty details now r = updateType r6"
    by (simp add: recordInteraction_def Let_def)
  then show "rtype (recordInteraction ty details now r) =
     documented_type (metrics_mean (recordInteraction ty details now r))"
    by (simp add: updateType_documented)
next
  obtain r3 where "decay hours r = updateType r3"
    by (simp add: decay_def Let_def)
  then show "rtype (decay hours r) = documented_type (metrics_mean (decay hours r))"
    by (simp add: updateType_documented)
qed

section \<open>Theorems: command relay\<close>

lemma string_of_nat_nonempty: "string_of_nat n \<noteq> []"
  by (subst string_of_nat.simps) simp

lemma string_of_nat_len2: "10 \<le> n \<Longrightarrow> 2 \<le> length (string_of_nat n)"
  using string_of_nat_nonempty [of "n div 10"]
  by (subst string_of_nat.simps) (cases "string_of_nat (n div 10)"; simp)

lemma digit_char_inj: "a < 10 \<Longrightarrow> b < 10 \<Longrightarrow> digit_char a = digit_char b \<Longrightarrow> a = b"
proof -
  assume a: "a < 10" and b: "b < 10" and e: "digit_char a = digit_char b"
  have "distinct ''0123456789''" by simp
  with a b e show "a = b" by (simp add: digit_char_def nth_eq_iff_index_eq)
qed

lemma string_of_nat_inj: "string_of_nat m = string_of_nat n \<Longrightarrow> m = n"
proof (induction m arbitrary: n rule: string_of_nat.induct)
  case (1 m)
  show ?case
  proof (cases "m < 10")
    case True
    then have lm: "string_of_nat m = [digit_char m]" by (subst string_of_nat.simps) simp
    have "n < 10"
    proof (rule ccontr)
      assume "\<not> n < 10"
      then have "2 \<le> length (string_of_nat n)" by (simp add: string_of_nat_len2)
      with lm "1.prems" show False by simp
    qed
    then have "string_of_nat n = [digit_char n]" by (subst string_of_nat.simps) simp
    with lm "1.prems" True \<open>n < 10\<close> show ?thesis by (simp add: digit_char_inj)
  next
    case False
    then have lm: "string_of_nat m = string_of_nat (m div 10) @ [digit_char (m mod 10)]"
      by (subst string_of_nat.simps) simp
    have "\<not> n < 10"
    proof
      assume "n < 10"
      then have "string_of_nat n = [digit_char n]" by (subst string_of_nat.simps) simp
      moreover from False have "2 \<le> length (string_of_nat m)" by (simp add: string_of_nat_len2)
      ultimately show False using "1.prems" by simp
    qed
    then have ln: "string_of_nat n = string_of_nat (n div 10) @ [digit_char (n mod 10)]"
      by (subst string_of_nat.simps) simp
    from lm ln "1.prems" have e1: "string_of_nat (m div 10) = string_of_nat (n div 10)"
      and e2: "digit_char (m mod 10) = digit_char (n mod 10)" by simp_all
    from "1.IH" [OF False e1] have "m div 10 = n div 10" .
    moreover from e2 have "m mod 10 = n mod 10" by (intro digit_char_inj) simp_all
    ultimately show ?thesis by (metis div_mult_mod_eq)
  qed
qed

lemma workerCommandId_inj: "workerCommandId c i = workerCommandId c j \<Longrightarrow> i = j"
  by (simp add: workerCommandId_def string_of_nat_inj)

lemma routeCommand_workers: "workers (fst (routeCommand L w c a k t s)) = workers s"
  by (simp add: routeCommand_def Let_def split: option.splits)

lemma routeCommand_assigned:
  "workers s w = Some r \<Longrightarrow> w_leader r = L \<Longrightarrow>
   routeCommand L w c a k t s =
     (s\<lparr>commandQueue := (commandQueue s)(k \<mapsto>
           \<lparr>c_leader = L, c_worker = w, c_command = c, c_args = a, c_timestamp = t, c_status = ''sent''\<rparr>),
        emitted := emitted s @ [WorkerCommand (w_socket r) c a k]\<rparr>, Success k)"
  by (simp add: routeCommand_def Let_def)

lemma routeEach_results:
  "all_assigned s L ws \<Longrightarrow>
   snd (routeEach L c a k now idx ws (s, acc)) =
     acc @ map (\<lambda>(i, w). (w, Success (workerCommandId k i))) (zip [idx..<idx + length ws] ws)"
proof (induction ws arbitrary: s acc idx)
  case Nil
  then show ?case by simp
next
  case (Cons w ws)
  from Cons.prems obtain r where r: "workers s w = Some r" "w_leader r = L"
    by (auto simp: all_assigned_def)
  let ?s' = "fst (routeCommand L w c a (workerCommandId k idx) (now idx) s)"
  have "all_assigned ?s' L ws"
    using Cons.prems by (simp add: all_assigned_def routeCommand_workers)
  from Cons.IH [OF this] show ?case
    using r by (simp add: routeCommand_assigned upt_rec [of idx] del: upt_Suc)
qed

lemma routeEach_queue_other:
  "\<forall>i. idx \<le> i \<and> i < idx + length ws \<longrightarrow> q \<noteq> workerCommandId k i \<Longrightarrow>
   commandQueue (fst (routeEach L c a k now idx ws (s, acc))) q = commandQueue s q"
proof (induction ws arbitrary: s acc idx)
  case Nil
  then show ?case by simp
next
  case (Cons w ws)
  obtain s' res where rc: "routeCommand L w c a (workerCommandId k idx) (now idx) s = (s', res)"
    by (cases "routeCommand L w c a (workerCommandId k idx) (now idx) s")
  have q0: "q \<noteq> workerCommandId k idx" using Cons.prems by simp
  have "commandQueue s' q = commandQueue s q"
    using rc q0 by (auto simp: routeCommand_def Let_def split: option.splits if_splits)
  moreover have "\<forall>i. Suc idx \<le> i \<and> i < Suc idx + length ws \<longrightarrow> q \<noteq> workerCommandId k i"
    using Cons.prems by simp
  from Cons.IH [OF this] have
    "commandQueue (fst (routeEach L c a k now (Suc idx) ws (s', acc @ [(w, res)]))) q = commandQueue s' q" .
  ultimately show ?case using rc by simp
qed

lemma routeEach_queue_at:
  "all_assigned s L ws \<Longrightarrow> i < length ws \<Longrightarrow>
   commandQueue (fst (routeEach L c a k now idx ws (s, acc))) (workerCommandId k (idx + i)) =
     Some \<lparr>c_leader = L, c_worker = ws ! i, c_command = c, c_args = a,
           c_timestamp = now (idx + i), c_status = ''sent''\<rparr>"
proof (induction ws arbitrary: s acc idx i)
  case Nil
  then show ?case by simp
next
  case (Cons w ws)
  from Cons.prems obtain r where r: "workers s w = Some r" "w_leader r = L"
    by (auto simp: all_assigned_def)
  let ?rc = "routeCommand L w c a (workerCommandId k idx) (now idx) s"
  have as: "all_assigned (fst ?rc) L ws"
    using Cons.prems by (simp add: all_assigned_def routeCommand_workers)
  show ?case
  proof (cases i)
    case 0
    have "\<forall>j. Suc idx \<le> j \<and> j < Suc idx + length ws \<longrightarrow> workerCommandId k idx \<noteq> workerCommandId k j"
      using workerCommandId_inj by fastforce
    from routeEach_queue_other [OF this] show ?thesis
      using r 0 by (simp add: routeCommand_assigned)
  next
    case (Suc j)
    with Cons.prems have "j < length ws" by simp
    from Cons.IH [OF as this, where acc = "acc @ [(w, snd ?rc)]" and idx = "Suc idx"] show ?thesis
      using Suc r by (simp add: routeCommand_assigned)
  qed
qed


text \<open>
  Claim C5, as amended. \<^verbatim>\<open>routeCommand\<close> to a worker name without a worker record
  returns the failure \<open>Worker not found\<close> and leaves the relay, so also its command
  queue, unchanged. \<^verbatim>\<open>routeGroupCommand\<close> for a leader whose \<open>N\<close> listed workers all
  have a worker record naming this leader returns one success per listed worker, in the
  order of the list, stores for the worker at index \<open>i\<close> a command record with status
  \<open>sent\<close> under the identifier \<open>commandId-i\<close>, leaves every other entry of the command
  queue as it was, and the \<open>N\<close> identifiers are pairwise different.
\<close>

theorem relay_routing:
  "(workers s w = None \<longrightarrow> routeCommand L w c a k t s = (s, Failure ''Worker not found''))
   \<and> (all_assigned s L (getWorkersForLeader s L) \<longrightarrow>
        (let ws = getWorkersForLeader s L;
             s' = fst (routeGroupCommand L c a k now s);
             results = snd (routeGroupCommand L c a k now s)
         in results = map (\<lambda>i. (ws ! i, Success (workerCommandId k i))) [0..<length ws]
            \<and> (\<forall>i<length ws. commandQueue s' (workerCommandId k i) =
                  Some \<lparr>c_leader = L, c_worker = ws ! i, c_command = c, c_args = a,
                        c_timestamp = now i, c_status = ''sent''\<rparr>)
            \<and> (\<forall>q. q \<notin> workerCommandId k ` {..<length ws} \<longrightarrow> commandQueue s' q = commandQueue s q)
            \<and> card (workerCommandId k ` {..<length ws}) = length ws))"
proof (intro conjI impI)
  assume "workers s w = None"
  then show "routeCommand L w c a k t s = (s, Failure ''Worker not found'')"
    by (simp add: routeCommand_def)
next
  let ?ws = "getWorkersForLeader s L"
  assume as: "all_assigned s L ?ws"
  have res: "snd (routeGroupCommand L c a k now s) =
               map (\<lambda>i. (?ws ! i, Success (workerCommandId k i))) [0..<length ?ws]"
  proof -
    have "zip [0..<length ?ws] ?ws = map (\<lambda>i. (i, ?ws ! i)) [0..<length ?ws]"
      by (rule nth_equalityI) simp_all
    then show ?thesis
      using routeEach_results [OF as, of c a k now 0 "[]"]
      by (simp add: routeGroupCommand_def comp_def)
  qed
  have at: "\<forall>i<length ?ws. commandQueue (fst (routeGroupCommand L c a k now s)) (workerCommandId k i) =
                  Some \<lparr>c_leader = L, c_worker = ?ws ! i, c_command = c, c_args = a,
                        c_timestamp = now i, c_status = ''sent''\<rparr>"
    using routeEach_queue_at [OF as, of _ c a k now 0 "[]"]
    by (simp add: routeGroupCommand_def)
  have other: "\<forall>q. q \<notin> workerCommandId k ` {..<length ?ws} \<longrightarrow>
                 commandQueue (fst (routeGroupCommand L c a k now s)) q = commandQueue s q"
  proof (intro allI impI)
    fix q assume "q \<notin> workerCommandId k ` {..<length ?ws}"
    then have "\<forall>i. 0 \<le> i \<and> i < 0 + length ?ws \<longrightarrow> q \<noteq> workerCommandId k i" by auto
    from routeEach_queue_other [OF this] show
      "commandQueue (fst (routeGroupCommand L c a k now s)) q = commandQueue s q"
      by (simp add: routeGroupCommand_def)
  qed
  have "inj_on (workerCommandId k) {..<length ?ws}"
    by (rule inj_onI) (rule workerCommandId_inj)
  then have card: "card (workerCommandId k ` {..<length ?ws}) = length ?ws"
    by (simp add: card_image)
  show "let ws = getWorkersForLeader s L;
             s' = fst (routeGroupCommand L c a k now s);
             results = snd (routeGroupCommand L c a k now s)
         in results = map (\<lambda>i. (ws ! i, Success (workerCommandId k i))) [0..<length ws]
            \<and> (\<forall>i<length ws. commandQueue s' (workerCommandId k i) =
                  Some \<lparr>c_leader = L, c_worker = ws ! i, c_command = c, c_args = a,
                        c_timestamp = now i, c_status = ''sent''\<rparr>)
            \<and> (\<forall>q. q \<notin> workerCommandId k ` {..<length ws} \<longrightarrow> commandQueue s' q = commandQueue s q)
            \<and> card (workerCommandId k ` {..<length ws}) = length ws"
    unfolding Let_def using res at other card by blast
qed

lemma relay_two_workers_workers: "getWorkersForLeader relay_two_workers ''L'' = [''w0'', ''w1'']"
  by (simp add: relay_two_workers_def registerWorker_def new_relay_def getWorkersForLeader_def Let_def)

lemma relay_two_workers_assigned: "all_assigned relay_two_workers ''L'' [''w0'', ''w1'']"
  by (simp add: all_assigned_def relay_two_workers_def registerWorker_def new_relay_def Let_def)

lemma relay_two_workers_ghost: "workers relay_two_workers ''ghost'' = None"
  by (simp add: relay_two_workers_def registerWorker_def new_relay_def Let_def)

lemma wcid1: "workerCommandId ''g'' (Suc 0) = ''g-1''"
  by (simp add: workerCommandId_def string_of_nat.simps digit_char_def)

lemma wcid0: "workerCommandId ''g'' 0 = ''g-0''"
  by (simp add: workerCommandId_def string_of_nat.simps digit_char_def)

theorem relay_routing_witness:
  "workers relay_two_workers ''ghost'' = None
   \<and> routeCommand ''L'' ''ghost'' ''follow'' [] ''g'' 5 relay_two_workers = (relay_two_workers, Failure ''Worker not found'')
   \<and> all_assigned relay_two_workers ''L'' (getWorkersForLeader relay_two_workers ''L'')
   \<and> snd (routeGroupCommand ''L'' ''follow'' [] ''g'' (\<lambda>i. 5) relay_two_workers) =
        [(''w0'', Success ''g-0''), (''w1'', Success ''g-1'')]
   \<and> commandQueue (fst (routeGroupCommand ''L'' ''follow'' [] ''g'' (\<lambda>i. 5) relay_two_workers)) ''g-1'' =
        Some \<lparr>c_leader = ''L'', c_worker = ''w1'', c_command = ''follow'', c_args = [],
              c_timestamp = 5, c_status = ''sent''\<rparr>"
proof -
  have a: "all_assigned relay_two_workers ''L'' (getWorkersForLeader relay_two_workers ''L'')"
    by (simp add: relay_two_workers_workers relay_two_workers_assigned)
  have u: "[0..<2] = [0, 1]" by (simp add: upt_rec)
  show ?thesis
    using relay_routing [of relay_two_workers "''ghost''" "''L''" "''follow''" "[]" "''g''" 5 "\<lambda>i. 5"]
      a relay_two_workers_ghost
    apply (simp add: Let_def relay_two_workers_workers u wcid0 wcid1)
    apply (elim conjE)
    apply (drule_tac x = "Suc 0" in spec)
    apply (simp add: wcid1)
    done
qed

text \<open>
  Claim C5 as stated fails once a worker has registered again with another leader:
  \<^verbatim>\<open>registerWorker\<close> leaves its name in the list of the first leader. Leader \<open>L1\<close> then
  lists two workers, of which only \<open>v\<close> has a record naming \<open>L1\<close>; its group command
  creates no record with suffix \<open>-0\<close>, and the one record it creates has suffix \<open>-1\<close>.
\<close>

theorem group_command_stale_entry_counterexample:
  "getWorkersForLeader relay_worker_moved ''L1'' = [''w'', ''v'']
   \<and> map_option w_leader (workers relay_worker_moved ''w'') = Some ''L2''
   \<and> map_option w_leader (workers relay_worker_moved ''v'') = Some ''L1''
   \<and> snd (routeGroupCommand ''L1'' ''follow'' [] ''g'' (\<lambda>i. 5) relay_worker_moved) =
        [(''w'', Failure ''Worker not assigned to this leader''), (''v'', Success ''g-1'')]
   \<and> commandQueue (fst (routeGroupCommand ''L1'' ''follow'' [] ''g'' (\<lambda>i. 5) relay_worker_moved)) ''g-0'' = None
   \<and> map_option c_worker
        (commandQueue (fst (routeGroupCommand ''L1'' ''follow'' [] ''g'' (\<lambda>i. 5) relay_worker_moved)) ''g-1'') = Some ''v''"
  by (simp add: relay_worker_moved_def registerWorker_def new_relay_def getWorkersForLeader_def Let_def
      routeGroupCommand_def routeCommand_def wcid0 wcid1)

text \<open>
  Claim C10. \<^verbatim>\<open>updateWorkerStatus\<close> for a worker name without a worker record returns
  the relay as it was: no worker record is created, no command record changes, nothing is
  emitted to a leader, and no cleanup is scheduled.
\<close>

theorem updateWorkerStatus_unknown_worker:
  "workers s w = None \<Longrightarrow> updateWorkerStatus w status now s = s"
  by (simp add: updateWorkerStatus_def)

theorem updateWorkerStatus_unknown_worker_witness:
  "workers relay_two_workers ''ghost'' = None \<and> updateWorkerStatus ''ghost'' report_completed 9 relay_two_workers = relay_two_workers"
  using updateWorkerStatus_unknown_worker [of relay_two_workers "''ghost''" report_completed 9] relay_two_workers_ghost
  by simp


section \<open>Theorems: emotional state store\<close>

lemma volatility_setEmotion [simp]:
  "volatility_of (personality (setEmotion e i rnd now s)) = volatility_of (personality s)"
  by (simp add: setEmotion_def Let_def volatility_of_def)

lemma decayRate_setEmotion [simp]:
  "emotionDecayRate (setEmotion e i rnd now s) = emotionDecayRate s"
  by (simp add: setEmotion_def Let_def)

lemma setEmotion_bounded:
  assumes "emotion_bounded s" and "- 1 \<le> volatility_of (personality s)"
  shows "emotion_bounded (setEmotion e i rnd now s)"
proof -
  have g: "0 \<le> 0.2 * (0.5 + volatility_of (personality s) * 0.5)"
    using assms(2) by simp
  show ?thesis
    using assms(1) g by (auto simp: setEmotion_def Let_def emotion_bounded_def)
qed

lemma setEmotion_inv: "soul_inv s \<Longrightarrow> soul_inv (setEmotion e i rnd now s)"
  by (simp add: soul_inv_def setEmotion_bounded)

lemma addGrievance_inv: "soul_inv s \<Longrightarrow> soul_inv (addGrievance p r now s)"
  by (simp add: soul_inv_def addGrievance_def emotion_bounded_def split: option.splits)

lemma decayEmotion_inv:
  assumes "soul_inv s" shows "soul_inv (decayEmotion rnd now s)"
proof -
  define s1 where "s1 = s\<lparr>emotionIntensity := max 0.3 (emotionIntensity s - emotionDecayRate s)\<rparr>"
  have s1: "soul_inv s1"
    using assms by (auto simp: s1_def soul_inv_def emotion_bounded_def)
  then have s2: "soul_inv (setEmotion ''calm'' 0.5 rnd now s1)" by (rule setEmotion_inv)
  have "decayEmotion rnd now s = s \<or> decayEmotion rnd now s = s1
        \<or> decayEmotion rnd now s = setEmotion ''calm'' 0.5 rnd now s1"
    unfolding decayEmotion_def Let_def s1_def by presburger
  with s1 s2 assms show ?thesis by auto
qed

lemma soul_step_inv: "soul_inv s \<Longrightarrow> soul_inv (soul_step s ev)"
  by (cases ev) (simp_all add: setEmotion_inv addGrievance_inv decayEmotion_inv)

lemma soul_run_inv: "soul_inv s \<Longrightarrow> soul_inv (soul_run s evs)"
  unfolding soul_run_def by (induction evs arbitrary: s) (simp_all add: soul_step_inv)

text \<open>
  Claim C6. From the state the constructor builds, after any sequence of
  \<^verbatim>\<open>setEmotion\<close> calls (any emotion, any intensity, any random draw),
  \<^verbatim>\<open>addGrievance\<close> calls and \<^verbatim>\<open>decayEmotion\<close> calls, the stored intensity and the
  stored frustration lie in [0, 1]. The sequence is arbitrary, so the bound holds after
  each of its steps. The personality's effective volatility is at least \<open>-1\<close>: it is
  0.5 when the profile sets none, and trait evolution keeps it in [0.2, 0.9].
\<close>

theorem emotional_state_bounded:
  "- 1 \<le> volatility_of p \<Longrightarrow> emotion_bounded (soul_run (new_soul_state name p t0) evs)"
proof -
  assume "- 1 \<le> volatility_of p"
  then have "soul_inv (new_soul_state name p t0)"
    by (simp add: soul_inv_def emotion_bounded_def new_soul_state_def)
  then have "soul_inv (soul_run (new_soul_state name p t0) evs)" by (rule soul_run_inv)
  then show ?thesis by (simp add: soul_inv_def)
qed

theorem emotional_state_bounded_witness:
  "- 1 \<le> volatility_of default_personality
   \<and> emotion_bounded (soul_run (fresh_blaze) stormy_events)
   \<and> frustrationLevel (soul_run (fresh_blaze) stormy_events) = 0.2"
proof -
  have v: "- 1 \<le> volatility_of default_personality"
    by (simp add: volatility_of_def default_personality_def num_or_def)
  have f: "frustrationLevel (soul_run (fresh_blaze) stormy_events) = 0.2"
    by (simp add: soul_run_def stormy_events_def fresh_blaze_def new_soul_state_def default_personality_def
        setEmotion_def addGrievance_def decayEmotion_def resistsChange_def downgradeAnger_def
        volatility_of_def angerThreshold_of_def num_or_def Let_def)
  show ?thesis
    using emotional_state_bounded [OF v, of "''Blaze''" 0 stormy_events] v f
    by (simp add: fresh_blaze_def)
qed

text \<open>
  Claim C8. A call \<^verbatim>\<open>setEmotion('angry', ...)\<close> that is applied stores \<open>frustrated\<close> when
  the frustration is below the anger threshold and above half of it, \<open>annoyed\<close> when it is
  at most half of it, and \<open>angry\<close> only when the frustration has reached the threshold;
  the same emotion is written to the personality's current emotion. A call that the stoic
  roll resists applies nothing and leaves a calm agent calm. Whatever emotion is requested,
  \<open>angry\<close> is the stored emotion after \<^verbatim>\<open>setEmotion\<close> only if \<open>angry\<close> was requested
  and the frustration had reached the threshold.
\<close>

theorem anger_downgrade:
  "(\<not> resistsChange s rnd \<longrightarrow>
      emotion (setEmotion ''angry'' i rnd now s) =
        (if frustrationLevel s < angerThreshold_of (personality s)
         then (if frustrationLevel s > angerThreshold_of (personality s) * 0.5
               then ''frustrated'' else ''annoyed'')
         else ''angry'')
      \<and> currentEmotion (personality (setEmotion ''angry'' i rnd now s)) =
          Some (emotion (setEmotion ''angry'' i rnd now s)))
   \<and> (resistsChange s rnd \<longrightarrow> setEmotion ''angry'' i rnd now s = s \<and> emotion s = ''calm'')
   \<and> (emotion (setEmotion e i rnd now s) = ''angry'' \<longrightarrow>
        e = ''angry'' \<and> angerThreshold_of (personality s) \<le> frustrationLevel s)"
  by (auto simp: setEmotion_def Let_def downgradeAnger_def resistsChange_def split: if_splits)

lemma heated_blaze_frustration:
  "frustrationLevel heated_blaze = 0.6 \<and> emotion heated_blaze = ''irritated''
   \<and> personality heated_blaze = default_personality\<lparr>currentEmotion := Some ''irritated''\<rparr>"
  by (simp add: heated_blaze_def fresh_blaze_def soul_run_def new_soul_state_def
      default_personality_def setEmotion_def resistsChange_def downgradeAnger_def
      volatility_of_def angerThreshold_of_def num_or_def Let_def)

theorem anger_downgrade_witness:
  "\<not> resistsChange fresh_blaze 0.1
   \<and> emotion (setEmotion ''angry'' 0.9 0.1 5 fresh_blaze) = ''annoyed''
   \<and> resistsChange stoic_blaze 0.1
   \<and> setEmotion ''angry'' 0.9 0.1 5 stoic_blaze = stoic_blaze
   \<and> emotion (setEmotion ''angry'' 0.9 0.1 5 heated_blaze) = ''angry''
   \<and> angerThreshold_of (personality heated_blaze) \<le> frustrationLevel heated_blaze"
proof -
  have a: "\<not> resistsChange fresh_blaze 0.1"
    by (simp add: resistsChange_def fresh_blaze_def new_soul_state_def default_personality_def
        volatility_of_def num_or_def Let_def)
  have b: "resistsChange stoic_blaze 0.1"
    by (simp add: resistsChange_def stoic_blaze_def stoic_personality_def new_soul_state_def
        default_personality_def volatility_of_def num_or_def Let_def)
  have c: "frustrationLevel fresh_blaze = 0 \<and> angerThreshold_of (personality fresh_blaze) = 0.5"
    by (simp add: fresh_blaze_def new_soul_state_def default_personality_def
        angerThreshold_of_def num_or_def)
  have d: "emotion (setEmotion ''angry'' 0.9 0.1 5 heated_blaze) = ''angry''"
    using heated_blaze_frustration
    by (simp add: setEmotion_def resistsChange_def downgradeAnger_def default_personality_def
        volatility_of_def angerThreshold_of_def num_or_def Let_def)
  show ?thesis
    using anger_downgrade [of fresh_blaze "0.1" "0.9" 5 "''angry''"]
      anger_downgrade [of stoic_blaze "0.1" "0.9" 5 "''angry''"]
      anger_downgrade [of heated_blaze "0.1" "0.9" 5 "''angry''"] a b c d
    by simp
qed

section \<open>Theorems: thought tick\<close>

lemma trim_nonempty: "\<exists>c \<in> set s. \<not> isSpace c \<Longrightarrow> trim s \<noteq> []"
proof -
  assume a: "\<exists>c \<in> set s. \<not> isSpace c"
  then have "dropWhile isSpace s \<noteq> []" by (simp add: dropWhile_eq_Nil_conv)
  moreover have "\<not> isSpace (hd (dropWhile isSpace s))"
    using calculation hd_dropWhile by blast
  ultimately have "\<exists>c \<in> set (rev (dropWhile isSpace s)). \<not> isSpace c"
    by (metis hd_in_set set_rev)
  then have "dropWhile isSpace (rev (dropWhile isSpace s)) \<noteq> []"
    by (simp add: dropWhile_eq_Nil_conv)
  then show ?thesis by (simp add: trim_def)
qed

lemma bracket_not_space: "\<not> isSpace (CHR ''['')"
  by (simp add: isSpace_def)

lemma item_kind: "isWorkerReport c \<or> isChat c \<or> isEvent c"
  by (cases c) (simp_all add: isWorkerReport_def isChat_def isEvent_def)

lemma batchedMessage_has_bracket:
  assumes "batch \<noteq> []" shows "CHR ''['' \<in> set (batchedMessage batch assigned)"
proof -
  obtain c where c: "c \<in> set batch" using assms by (cases batch) auto
  from item_kind [of c] c have
    "filter isWorkerReport batch \<noteq> [] \<or> filter isChat batch \<noteq> [] \<or> filter isEvent batch \<noteq> []"
    by (auto simp: filter_empty_conv)
  then show ?thesis
    by (auto simp: batchedMessage_def Let_def)
qed

lemma batchedMessage_trim: "batch \<noteq> [] \<Longrightarrow> trim (batchedMessage batch assigned) \<noteq> []"
  using batchedMessage_has_bracket bracket_not_space by (intro trim_nonempty) blast

lemma processThoughtTick_calls:
  assumes "ls_pendingContext s \<noteq> []"
  shows "ls_oracleCalls (processThoughtTick env s) = ls_oracleCalls s + 1"
proof -
  have "trim (batchedMessage (map fst (ls_pendingContext s)) (ls_assignedWorkers s)) \<noteq> []"
    using assms by (simp add: batchedMessage_trim)
  then show ?thesis
    using assms by (simp add: processThoughtTick_def Let_def split: option.splits)
qed

lemma processThoughtTick_drains: "ls_pendingContext (processThoughtTick env s) = []"
  by (simp add: processThoughtTick_def Let_def split: option.splits)

lemma queueAll_leader:
  "ls_isLeader s \<Longrightarrow>
   ls_pendingContext (queueAll items s) = ls_pendingContext s @ items
   \<and> ls_oracleCalls (queueAll items s) = ls_oracleCalls s"
proof (induction items arbitrary: s)
  case Nil
  then show ?case by simp
next
  case (Cons x items)
  obtain item now where x: "x = (item, now)" by (cases x)
  let ?s1 = "fst (queueContext item now s)"
  have l: "ls_isLeader ?s1" using Cons.prems by (simp add: queueContext_def)
  from Cons.IH [OF l] show ?case
    using Cons.prems x by (simp add: queueContext_def)
qed

text \<open>
  Claim C4. For a leader, queueing \<open>K \<ge> 1\<close> context items and then running the tick
  makes exactly one call of the oracle (\<^verbatim>\<open>promptConvo\<close>), whatever \<open>K\<close> is and whatever
  was pending before; a tick with an empty queue changes nothing, so it makes no call; and
  after every tick the queue is empty.
\<close>

theorem thought_tick_one_call:
  "(ls_isLeader s \<and> items \<noteq> [] \<longrightarrow>
      ls_oracleCalls (thoughtTick env (queueAll items s)) = ls_oracleCalls s + 1)
   \<and> (ls_pendingContext s = [] \<longrightarrow> thoughtTick env s = s)
   \<and> ls_pendingContext (thoughtTick env s) = []"
proof (intro conjI impI)
  assume a: "ls_isLeader s \<and> items \<noteq> []"
  then have p: "ls_pendingContext (queueAll items s) \<noteq> []"
    and c: "ls_oracleCalls (queueAll items s) = ls_oracleCalls s"
    using queueAll_leader [of s items] by simp_all
  from processThoughtTick_calls [OF p, of env] c p
  show "ls_oracleCalls (thoughtTick env (queueAll items s)) = ls_oracleCalls s + 1"
    by (simp add: thoughtTick_def)
next
  assume "ls_pendingContext s = []"
  then show "thoughtTick env s = s" by (simp add: thoughtTick_def)
next
  show "ls_pendingContext (thoughtTick env s) = []"
    by (simp add: thoughtTick_def processThoughtTick_drains)
qed


theorem thought_tick_one_call_witness:
  "ls_isLeader idle_leader \<and> three_items \<noteq> []
   \<and> ls_oracleCalls (thoughtTick quiet_env (queueAll three_items idle_leader)) = 1
   \<and> ls_pendingContext idle_leader = []
   \<and> thoughtTick quiet_env idle_leader = idle_leader"
proof -
  have a: "ls_isLeader idle_leader" "ls_pendingContext idle_leader = []"
    "ls_oracleCalls idle_leader = 0"
    by (simp_all add: idle_leader_def)
  have b: "three_items \<noteq> []" by (simp add: three_items_def)
  show ?thesis
    using thought_tick_one_call [of idle_leader three_items quiet_env] a b by simp
qed

section \<open>Theorems: strings\<close>

lemma startsWith_iff: "startsWith s p \<longleftrightarrow> (\<exists>b. s = p @ b)"
  by (induction s p rule: startsWith.induct) auto

lemma includes_str_iff: "includes_str s p \<longleftrightarrow> (\<exists>a b. s = a @ p @ b)"
proof (induction s)
  case Nil
  then show ?case by auto
next
  case (Cons c cs)
  show ?case
  proof
    assume "includes_str (c # cs) p"
    then consider "startsWith (c # cs) p" | "includes_str cs p" by auto
    then show "\<exists>a b. c # cs = a @ p @ b"
    proof cases
      case 1
      then obtain b where "c # cs = p @ b" by (auto simp: startsWith_iff)
      then have "c # cs = [] @ p @ b" by simp
      then show ?thesis by blast
    next
      case 2
      then obtain a b where "cs = a @ p @ b" using Cons.IH by auto
      then have "c # cs = (c # a) @ p @ b" by simp
      then show ?thesis by blast
    qed
  next
    assume "\<exists>a b. c # cs = a @ p @ b"
    then obtain a b where ab: "c # cs = a @ p @ b" by auto
    show "includes_str (c # cs) p"
    proof (cases a)
      case Nil
      with ab have "startsWith (c # cs) p" by (auto simp: startsWith_iff)
      then show ?thesis by simp
    next
      case (Cons x a')
      with ab have "cs = a' @ p @ b" by simp
      then have "includes_str cs p" using Cons.IH by blast
      then show ?thesis by simp
    qed
  qed
qed

lemma trim_decomp:
  "\<exists>a b. s = a @ trim s @ b \<and> (\<forall>c \<in> set a. isSpace c) \<and> (\<forall>c \<in> set b. isSpace c)"
proof -
  let ?t = "dropWhile isSpace s"
  have 1: "s = takeWhile isSpace s @ ?t" by simp
  have "rev (dropWhile isSpace (rev ?t)) @ rev (takeWhile isSpace (rev ?t)) =
          rev (takeWhile isSpace (rev ?t) @ dropWhile isSpace (rev ?t))"
    by (simp only: rev_append)
  also have "\<dots> = rev (rev ?t)" by (simp only: takeWhile_dropWhile_id)
  finally have 2: "?t = trim s @ rev (takeWhile isSpace (rev ?t))"
    by (simp add: trim_def)
  have 3: "\<forall>c \<in> set (takeWhile isSpace s). isSpace c" by (auto dest: set_takeWhileD)
  have 4: "\<forall>c \<in> set (rev (takeWhile isSpace (rev ?t))). isSpace c"
    by (auto dest: set_takeWhileD)
  from 1 2 have "s = takeWhile isSpace s @ trim s @ rev (takeWhile isSpace (rev ?t))" by metis
  with 3 4 show ?thesis by blast
qed

lemma strip_leading:
  assumes sp: "\<forall>c \<in> set a. isSpace c" and p: "p \<noteq> []" "\<not> isSpace (hd p)"
    and eq: "a @ t = x @ p @ y"
  shows "\<exists>x'. t = x' @ p @ y"
proof -
  from eq consider us where "a = x @ us" "us @ t = p @ y" | us where "a @ us = x" "t = us @ p @ y"
    by (auto simp: append_eq_append_conv2)
  then show ?thesis
  proof cases
    case 1
    show ?thesis
    proof (cases us)
      case Nil
      with 1 have "t = [] @ p @ y" by simp
      then show ?thesis by blast
    next
      case (Cons u us')
      with 1 p have "hd p = u" by (cases p) auto
      moreover from Cons 1 sp have "isSpace u" by auto
      ultimately show ?thesis using p by simp
    qed
  next
    case 2
    then show ?thesis by blast
  qed
qed

lemma strip_trailing:
  assumes sp: "\<forall>c \<in> set b. isSpace c" and p: "p \<noteq> []" "\<not> isSpace (last p)"
    and eq: "t @ b = x @ p @ y"
  shows "\<exists>y'. t = x @ p @ y'"
proof -
  from eq have "rev b @ rev t = rev y @ rev p @ rev x" by (metis append.assoc rev_append)
  moreover have "\<forall>c \<in> set (rev b). isSpace c" using sp by simp
  moreover have "rev p \<noteq> []" "\<not> isSpace (hd (rev p))" using p by (simp_all add: hd_rev)
  ultimately obtain x' where "rev t = x' @ rev p @ rev x"
    using strip_leading by blast
  then have "rev (rev t) = rev (x' @ rev p @ rev x)" by simp
  then have "t = x @ p @ rev x'" by simp
  then show ?thesis by blast
qed

lemma includes_str_trim:
  assumes "phrase_ok p" shows "includes_str (trim s) p = includes_str s p"
proof
  obtain a b where d: "s = a @ trim s @ b" and sa: "\<forall>c \<in> set a. isSpace c"
    and sb: "\<forall>c \<in> set b. isSpace c" using trim_decomp by blast
  {
    assume "includes_str (trim s) p"
    then obtain x y where "trim s = x @ p @ y" by (auto simp: includes_str_iff)
    with d have "s = (a @ x) @ p @ (y @ b)" by simp
    then show "includes_str s p" unfolding includes_str_iff by blast
  }
  {
    assume "includes_str s p"
    then obtain x y where "s = x @ p @ y" by (auto simp: includes_str_iff)
    with d have "a @ (trim s @ b) = x @ p @ y" by simp
    from strip_leading [OF sa _ _ this] assms obtain x' where "trim s @ b = x' @ p @ y"
      by (auto simp: phrase_ok_def)
    from strip_trailing [OF sb _ _ this] assms obtain y' where "trim s = x' @ p @ y'"
      by (auto simp: phrase_ok_def)
    then show "includes_str (trim s) p" unfolding includes_str_iff by blast
  }
qed

lemma includesAny_trim:
  "list_all phrase_ok ps \<Longrightarrow> includesAny (trim s) ps = includesAny s ps"
  by (induction ps) (simp_all add: includesAny_def includes_str_trim)

lemma farewellPhrases_ok: "list_all phrase_ok farewellPhrases"
  by (simp add: farewellPhrases_def phrase_ok_def isSpace_def)

lemma agreementPhrases_ok: "list_all phrase_ok agreementPhrases"
  by (simp add: agreementPhrases_def phrase_ok_def isSpace_def)

lemma length_trim: "length (trim s) \<le> length s"
proof -
  have "length (trim s) \<le> length (dropWhile isSpace s)"
    unfolding trim_def by (metis length_dropWhile_le length_rev)
  also have "\<dots> \<le> length s" by (rule length_dropWhile_le)
  finally show ?thesis .
qed

lemma length_toLowerCase [simp]: "length (toLowerCase s) = length s"
  by (simp add: toLowerCase_def)


section \<open>Theorems: response decision of the cognitive engine\<close>

lemma msgLower_farewell:
  "includesAny (trim (toLowerCase m)) farewellPhrases = includesAny (toLowerCase m) farewellPhrases"
  by (simp add: includesAny_trim farewellPhrases_ok)

lemma msgLower_agreement:
  "includesAny (trim (toLowerCase m)) agreementPhrases = includesAny (toLowerCase m) agreementPhrases"
  by (simp add: includesAny_trim agreementPhrases_ok)

lemma msgLower_short: "length m < 50 \<Longrightarrow> length (trim (toLowerCase m)) < 50"
  using length_trim [of "toLowerCase m"] by simp

text \<open>
  Claim C9. In \<^verbatim>\<open>CognitiveEngine.shouldRespond\<close>, a message that contains a farewell
  phrase (case-insensitively) is decided \<open>shouldRespond = false\<close> with reason
  \<open>farewell_detected\<close>; a message without farewell phrase that is shorter than 50
  characters and contains an acknowledgment phrase is decided \<open>shouldRespond = false\<close>
  with reason \<open>acknowledgment\<close>; in both cases the oracle is not queried. This holds
  whether or not the message names the recipient: the engine does not look for the name
  before these two checks.
\<close>

theorem farewell_and_acknowledgment_skip:
  "(includesAny (toLowerCase (ep_message p)) farewellPhrases \<longrightarrow>
      \<not> ed_shouldRespond (engine_shouldRespond p reply draws)
      \<and> ed_reason (engine_shouldRespond p reply draws) = ''farewell_detected''
      \<and> ed_oracleCalls (engine_shouldRespond p reply draws) = 0)
   \<and> (\<not> includesAny (toLowerCase (ep_message p)) farewellPhrases
      \<and> length (ep_message p) < 50
      \<and> includesAny (toLowerCase (ep_message p)) agreementPhrases \<longrightarrow>
      \<not> ed_shouldRespond (engine_shouldRespond p reply draws)
      \<and> ed_reason (engine_shouldRespond p reply draws) = ''acknowledgment''
      \<and> ed_oracleCalls (engine_shouldRespond p reply draws) = 0)"
  by (simp add: engine_shouldRespond_def Let_def msgLower_farewell msgLower_agreement
      msgLower_short mk_decision_def)

lemma see_you_later: "includesAny (toLowerCase ''see you later!'') farewellPhrases"
  by (simp add: includesAny_def farewellPhrases_def toLowerCase_def lower_char_def)

lemma ok_got_it:
  "\<not> includesAny (toLowerCase ''ok, got it'') farewellPhrases
   \<and> includesAny (toLowerCase ''ok, got it'') agreementPhrases"
  by (simp add: includesAny_def farewellPhrases_def agreementPhrases_def toLowerCase_def lower_char_def)

theorem farewell_and_acknowledgment_skip_witness:
  "includesAny (toLowerCase ''see you later!'') farewellPhrases
   \<and> ed_reason (engine_shouldRespond (engine_input ''see you later!'' []) (Some ''respond'') (draws_of 0.99))
       = ''farewell_detected''
   \<and> \<not> ed_shouldRespond (engine_shouldRespond (engine_input ''see you later!'' []) (Some ''respond'') (draws_of 0.99))
   \<and> length ''ok, got it'' < 50
   \<and> ed_reason (engine_shouldRespond (engine_input ''ok, got it'' []) (Some ''respond'') (draws_of 0.99))
       = ''acknowledgment''
   \<and> \<not> ed_shouldRespond (engine_shouldRespond (engine_input ''ok, got it'' []) (Some ''respond'') (draws_of 0.99))"
  using farewell_and_acknowledgment_skip [of "engine_input ''see you later!'' []" "Some ''respond''" "draws_of 0.99"]
    farewell_and_acknowledgment_skip [of "engine_input ''ok, got it'' []" "Some ''respond''" "draws_of 0.99"]
    see_you_later ok_got_it
  by (simp add: engine_input_def)

lemma backAndForthCount_empty: "backAndForthCount name sender [] = 0"
  by (simp add: backAndForthCount_def trim_def lastN_def)

text \<open>
  The hard cutoff inside the engine, on the context the engine is handed: with four or
  more alternating turns in its last eight non-blank lines the engine decides
  \<open>shouldRespond = false\<close> without a query, whatever the reply and the draw would be, and
  the reason is \<open>conversation_limit\<close> when the message reaches the back-and-forth stage.
  With two or three alternating turns a message that reaches the stage is skipped exactly
  when the throttle draw is below the skip chance (0.9 for two turns, 0.95 for three);
  otherwise the oracle stage decides, with one query.
\<close>

lemma engine_conversation_limit:
  "(4 \<le> backAndForthCount (ep_botName p) (ep_sender p) (ep_recentContext p) \<longrightarrow>
      \<not> ed_shouldRespond (engine_shouldRespond p reply draws)
      \<and> ed_oracleCalls (engine_shouldRespond p reply draws) = 0
      \<and> (reachesThrottle p \<longrightarrow>
           ed_reason (engine_shouldRespond p reply draws) = ''conversation_limit''))
   \<and> (reachesThrottle p
      \<and> backAndForthCount (ep_botName p) (ep_sender p) (ep_recentContext p) \<in> {2, 3} \<longrightarrow>
      (if rThrottle draws <
            min 0.95 (0.6 + real (backAndForthCount (ep_botName p) (ep_sender p) (ep_recentContext p)) * 0.15)
       then \<not> ed_shouldRespond (engine_shouldRespond p reply draws)
            \<and> ed_reason (engine_shouldRespond p reply draws) = ''conversation_limit''
            \<and> ed_oracleCalls (engine_shouldRespond p reply draws) = 0
       else engine_shouldRespond p reply draws = oracleStage p reply draws
            \<and> ed_oracleCalls (engine_shouldRespond p reply draws) = 1))"
proof -
  let ?n = "backAndForthCount (ep_botName p) (ep_sender p) (ep_recentContext p)"
  have n0: "ep_recentContext p = [] \<Longrightarrow> ?n = 0" by (simp add: backAndForthCount_empty)
  have oc: "ed_oracleCalls (oracleStage p reply draws) = 1"
    by (simp add: oracleStage_def Let_def mk_decision_def)
  have a: "4 \<le> ?n \<longrightarrow>
      \<not> ed_shouldRespond (engine_shouldRespond p reply draws)
      \<and> ed_oracleCalls (engine_shouldRespond p reply draws) = 0
      \<and> (reachesThrottle p \<longrightarrow>
           ed_reason (engine_shouldRespond p reply draws) = ''conversation_limit'')"
    using n0 by (auto simp: engine_shouldRespond_def Let_def mk_decision_def reachesThrottle_def)
  have b: "reachesThrottle p \<and> ?n \<in> {2, 3} \<longrightarrow>
      (if rThrottle draws < min 0.95 (0.6 + real ?n * 0.15)
       then \<not> ed_shouldRespond (engine_shouldRespond p reply draws)
            \<and> ed_reason (engine_shouldRespond p reply draws) = ''conversation_limit''
            \<and> ed_oracleCalls (engine_shouldRespond p reply draws) = 0
       else engine_shouldRespond p reply draws = oracleStage p reply draws
            \<and> ed_oracleCalls (engine_shouldRespond p reply draws) = 1)"
    using n0 oc by (auto simp: engine_shouldRespond_def Let_def mk_decision_def reachesThrottle_def)
  from a b show ?thesis by blast
qed

section \<open>Theorems: conversation coordinator\<close>

lemma getBaseDelay_product:
  "getBaseDelay st u rnd =
     \<lfloor>delayMultiplier st u * (rnd * (d_max (baseDelayOf st) - d_min (baseDelayOf st)) + d_min (baseDelayOf st))\<rfloor>"
proof -
  have "rnd * (d_max (baseDelayOf st) * delayMultiplier st u - d_min (baseDelayOf st) * delayMultiplier st u)
          + d_min (baseDelayOf st) * delayMultiplier st u =
        delayMultiplier st u * (rnd * (d_max (baseDelayOf st) - d_min (baseDelayOf st)) + d_min (baseDelayOf st))"
    by (simp add: algebra_simps)
  then show ?thesis by (simp add: getBaseDelay_def Let_def)
qed

lemma delayMultiplier_fast: "delayMultiplier st Fast = 0.5 * delayMultiplier st Normal"
  by (simp add: delayMultiplier_def Let_def)

lemma delayMultiplier_normal_nonneg: "0 \<le> delayMultiplier st Normal"
  by (simp add: delayMultiplier_def Let_def)

lemma getBaseDelay_fast_le_normal:
  assumes ok: "delayRangeOk st" and r: "0 \<le> rnd"
  shows "getBaseDelay st Fast rnd \<le> getBaseDelay st Normal rnd"
proof -
  define b where "b = rnd * (d_max (baseDelayOf st) - d_min (baseDelayOf st)) + d_min (baseDelayOf st)"
  have b0: "0 \<le> b" using ok r by (simp add: b_def delayRangeOk_def)
  have "0.5 * delayMultiplier st Normal * b \<le> delayMultiplier st Normal * b"
    using b0 delayMultiplier_normal_nonneg [of st] by (simp add: mult_nonneg_nonneg)
  then show ?thesis
    unfolding getBaseDelay_product delayMultiplier_fast b_def [symmetric] by (rule floor_mono)
qed

text \<open>
  Claim C2, as amended. When the lower-cased message contains the lower-cased name of the
  recipient, \<^verbatim>\<open>ConversationCoordinator.shouldRespond\<close> returns \<open>shouldRespond = true\<close>
  with reason \<open>directly_mentioned\<close>, whatever else the message contains; no later check
  runs and the oracle is not queried. The delay is drawn with urgency \<open>fast\<close>, and for a
  non-negative delay range it is at most the delay the same draw gives with urgency
  \<open>normal\<close>. The emotion \<open>attentive\<close> is requested through \<^verbatim>\<open>setEmotion\<close>: it is stored
  unless the stoic roll resists, in which case the state is unchanged and the agent stays
  calm.
\<close>

theorem self_mention_precedence:
  "includes_str (toLowerCase message) (toLowerCase name) \<longrightarrow>
     cd_shouldRespond (fst (coordinator_shouldRespond name username message otherBots st env))
     \<and> cd_reason (fst (coordinator_shouldRespond name username message otherBots st env))
         = ''directly_mentioned''
     \<and> snd (snd (coordinator_shouldRespond name username message otherBots st env)) = 0
     \<and> fst (snd (coordinator_shouldRespond name username message otherBots st env))
         = setEmotion ''attentive'' 0.7 (ce_rResist env) (ce_now env) st
     \<and> cd_delay (fst (coordinator_shouldRespond name username message otherBots st env))
         = getBaseDelay (setEmotion ''attentive'' 0.7 (ce_rResist env) (ce_now env) st) Fast (ce_rDelay env)
     \<and> (delayRangeOk st \<and> 0 \<le> ce_rDelay env \<longrightarrow>
          cd_delay (fst (coordinator_shouldRespond name username message otherBots st env))
            \<le> getBaseDelay (setEmotion ''attentive'' 0.7 (ce_rResist env) (ce_now env) st) Normal (ce_rDelay env))
     \<and> (\<not> resistsChange st (ce_rResist env) \<longrightarrow>
          emotion (fst (snd (coordinator_shouldRespond name username message otherBots st env)))
            = ''attentive'')
     \<and> (resistsChange st (ce_rResist env) \<longrightarrow>
          fst (snd (coordinator_shouldRespond name username message otherBots st env)) = st
          \<and> emotion st = ''calm'')"
proof
  assume m: "includes_str (toLowerCase message) (toLowerCase name)"
  let ?st1 = "setEmotion ''attentive'' 0.7 (ce_rResist env) (ce_now env) st"
  have r: "coordinator_shouldRespond name username message otherBots st env =
             (\<lparr>cd_shouldRespond = True, cd_delay = getBaseDelay ?st1 Fast (ce_rDelay env),
               cd_reason = ''directly_mentioned'', cd_emotion = None\<rparr>, ?st1, 0)"
    using m by (simp add: coordinator_shouldRespond_def Let_def)
  have ok: "delayRangeOk st \<Longrightarrow> delayRangeOk ?st1"
    by (simp add: delayRangeOk_def baseDelayOf_def setEmotion_def Let_def)
  have e1: "\<not> resistsChange st (ce_rResist env) \<Longrightarrow> emotion ?st1 = ''attentive''"
    by (simp add: setEmotion_def Let_def downgradeAnger_def)
  have e2: "resistsChange st (ce_rResist env) \<Longrightarrow> ?st1 = st \<and> emotion st = ''calm''"
    by (simp add: setEmotion_def Let_def resistsChange_def)
  show "cd_shouldRespond (fst (coordinator_shouldRespond name username message otherBots st env))
     \<and> cd_reason (fst (coordinator_shouldRespond name username message otherBots st env))
         = ''directly_mentioned''
     \<and> snd (snd (coordinator_shouldRespond name username message otherBots st env)) = 0
     \<and> fst (snd (coordinator_shouldRespond name username message otherBots st env))
         = setEmotion ''attentive'' 0.7 (ce_rResist env) (ce_now env) st
     \<and> cd_delay (fst (coordinator_shouldRespond name username message otherBots st env))
         = getBaseDelay (setEmotion ''attentive'' 0.7 (ce_rResist env) (ce_now env) st) Fast (ce_rDelay env)
     \<and> (delayRangeOk st \<and> 0 \<le> ce_rDelay env \<longrightarrow>
          cd_delay (fst (coordinator_shouldRespond name username message otherBots st env))
            \<le> getBaseDelay (setEmotion ''attentive'' 0.7 (ce_rResist env) (ce_now env) st) Normal (ce_rDelay env))
     \<and> (\<not> resistsChange st (ce_rResist env) \<longrightarrow>
          emotion (fst (snd (coordinator_shouldRespond name username message otherBots st env)))
            = ''attentive'')
     \<and> (resistsChange st (ce_rResist env) \<longrightarrow>
          fst (snd (coordinator_shouldRespond name username message otherBots st env)) = st
          \<and> emotion st = ''calm'')"
    unfolding r using ok e1 e2 getBaseDelay_fast_le_normal [of ?st1 "ce_rDelay env"] by auto
qed

lemma hey_blaze: "includes_str (toLowerCase ''Hey Blaze, bye!'') (toLowerCase ''Blaze'')"
  by (simp add: toLowerCase_def lower_char_def)

lemma fresh_blaze_no_resist: "\<not> resistsChange fresh_blaze r"
  by (simp add: resistsChange_def fresh_blaze_def new_soul_state_def default_personality_def
      volatility_of_def num_or_def Let_def)

lemma stoic_blaze_resists: "resistsChange stoic_blaze 0.1"
  by (simp add: resistsChange_def stoic_blaze_def stoic_personality_def new_soul_state_def
      default_personality_def volatility_of_def num_or_def Let_def)

theorem self_mention_precedence_witness:
  "includes_str (toLowerCase ''Hey Blaze, bye!'') (toLowerCase ''Blaze'')
   \<and> cd_shouldRespond (fst (coordinator_shouldRespond ''Blaze'' ''Steve'' ''Hey Blaze, bye!'' [] fresh_blaze oracle_down_env))
   \<and> \<not> resistsChange fresh_blaze (ce_rResist oracle_down_env)
   \<and> emotion (fst (snd (coordinator_shouldRespond ''Blaze'' ''Steve'' ''Hey Blaze, bye!'' [] fresh_blaze oracle_down_env)))
       = ''attentive''"
proof -
  note q = self_mention_precedence
    [of "''Hey Blaze, bye!''" "''Blaze''" "''Steve''" "[]" fresh_blaze oracle_down_env,
      THEN mp, OF hey_blaze]
  from q have 1:
    "cd_shouldRespond (fst (coordinator_shouldRespond ''Blaze'' ''Steve'' ''Hey Blaze, bye!'' [] fresh_blaze oracle_down_env))"
    by blast
  from q fresh_blaze_no_resist have 2:
    "emotion (fst (snd (coordinator_shouldRespond ''Blaze'' ''Steve'' ''Hey Blaze, bye!'' [] fresh_blaze oracle_down_env)))
       = ''attentive''"
    by blast
  from hey_blaze 1 fresh_blaze_no_resist 2 show ?thesis by blast
qed

text \<open>
  Claim C2 as stated fails on the emotion: a calm agent with emotional volatility 0.2 and
  a resistance draw of 0.1 is mentioned by name, responds, and stays calm.
\<close>

theorem self_mention_stoic_counterexample:
  "includes_str (toLowerCase ''Hey Blaze, bye!'') (toLowerCase ''Blaze'')
   \<and> cd_shouldRespond (fst (coordinator_shouldRespond ''Blaze'' ''Steve'' ''Hey Blaze, bye!'' [] stoic_blaze oracle_down_env))
   \<and> emotion (fst (snd (coordinator_shouldRespond ''Blaze'' ''Steve'' ''Hey Blaze, bye!'' [] stoic_blaze oracle_down_env)))
       = ''calm''"
proof -
  have r: "ce_rResist oracle_down_env = 0.1" by (simp add: oracle_down_env_def)
  have s: "setEmotion ''attentive'' 0.7 0.1 (ce_now oracle_down_env) stoic_blaze = stoic_blaze"
    using stoic_blaze_resists by (simp add: setEmotion_def Let_def)
  have c: "emotion stoic_blaze = ''calm''" by (simp add: stoic_blaze_def new_soul_state_def)
  show ?thesis
    using hey_blaze by (simp add: coordinator_shouldRespond_def Let_def r s c)
qed


lemma parseDecision_null: "parseDecision None = ''skip''"
  by (simp add: parseDecision_def str_or_def toLowerCase_def lower_char_def trim_def isSpace_def
      firstWord_def isSeparator_def Let_def)

lemma if_chain4:
  "Q X \<Longrightarrow> Q Y \<Longrightarrow> Q Z \<Longrightarrow> Q W \<Longrightarrow> Q (if a then X else if b then Y else if c then Z else W)"
  by simp

lemma engine_shape:
  "engine_shouldRespond p reply draws = oracleStage p reply draws
   \<or> (\<not> ed_shouldRespond (engine_shouldRespond p reply draws)
       \<and> ed_oracleCalls (engine_shouldRespond p reply draws) = 0)"
  unfolding engine_shouldRespond_def Let_def
  by (rule if_chain4 [where Q = "\<lambda>d. d = oracleStage p reply draws
        \<or> (\<not> ed_shouldRespond d \<and> ed_oracleCalls d = 0)"])
     (simp_all add: mk_decision_def)

lemma oracleStage_not_respond:
  assumes "parseDecision reply \<noteq> ''respond''"
    and "ed_shouldRespond (oracleStage p reply draws)"
  shows "ed_reason (oracleStage p reply draws) \<in> {''provoked'', ''enthusiastic''}"
proof -
  have "ed_shouldRespond (oracleStage p reply draws) \<longrightarrow>
        ed_reason (oracleStage p reply draws) \<in> {''provoked'', ''enthusiastic''}"
    unfolding oracleStage_def Let_def
    by (rule if_chain4 [where Q = "\<lambda>d. ed_shouldRespond d \<longrightarrow>
          ed_reason d \<in> {''provoked'', ''enthusiastic''}"])
       (simp_all add: mk_decision_def assms(1))
  with assms(2) show ?thesis by blast
qed

lemma engine_null:
  assumes "ed_shouldRespond (engine_shouldRespond p None draws)"
  shows "ed_reason (engine_shouldRespond p None draws) \<in> {''provoked'', ''enthusiastic''}"
proof -
  from engine_shape [of p None draws] assms
  have e: "engine_shouldRespond p None draws = oracleStage p None draws" by blast
  have "parseDecision None \<noteq> ''respond''" by (simp add: parseDecision_null)
  from oracleStage_not_respond [OF this, of p draws] assms e show ?thesis by simp
qed

lemma coordinator_null:
  assumes "ce_engineAvailable env" "ce_reply env = None"
    and "cd_shouldRespond (fst (coordinator_shouldRespond name username message otherBots st env))"
  shows "cd_reason (fst (coordinator_shouldRespond name username message otherBots st env))
           \<in> {''directly_mentioned'', ''provoked'', ''enthusiastic''}"
proof -
  let ?p = "\<lparr>ep_botName = name, ep_message = message, ep_sender = username,
             ep_recentContext = getRecentContext 4 (ce_recentMessages env),
             ep_personality = personality st\<rparr>"
  from engine_null [of ?p "ce_engineDraws env"] assms show ?thesis
    by (auto simp: coordinator_shouldRespond_def Let_def split: if_splits)
qed

text \<open>
  Claim C1, as amended. When the oracle query returns \<^verbatim>\<open>null\<close> the engine reads the
  missing reply as \<open>skip\<close>: its decision, and so the coordinator's when the engine is
  available, is \<open>shouldRespond = true\<close> only through the provoked override, the
  enthusiastic override or (in the coordinator) a direct mention; no question-mark rule and
  no 20 % rule applies. \<^verbatim>\<open>simpleFallback\<close> decides only when the engine itself is
  unavailable, for a message that names neither the recipient nor another known bot: it
  skips when another responder answered less than five seconds ago; otherwise it responds
  to a message containing a question mark with the delay of urgency \<open>normal\<close>; otherwise
  it responds exactly when the random draw is below 0.2, with the delay of urgency
  \<open>slow\<close>.
\<close>

theorem oracle_failure_is_skip:
  "parseDecision None = ''skip''
   \<and> (ed_shouldRespond (engine_shouldRespond p None draws) \<longrightarrow>
        ed_reason (engine_shouldRespond p None draws) \<in> {''provoked'', ''enthusiastic''})
   \<and> (ce_engineAvailable env \<and> ce_reply env = None
        \<and> cd_shouldRespond (fst (coordinator_shouldRespond name username message otherBots st env)) \<longrightarrow>
        cd_reason (fst (coordinator_shouldRespond name username message otherBots st env))
          \<in> {''directly_mentioned'', ''provoked'', ''enthusiastic''})
   \<and> (\<not> ce_engineAvailable env
        \<and> \<not> includes_str (toLowerCase message) (toLowerCase name)
        \<and> \<not> otherBotMentioned name message otherBots \<longrightarrow>
        coordinator_shouldRespond name username message otherBots st env
          = (simpleFallback name message st env, st, 0))
   \<and> (someoneResponded name env \<longrightarrow> \<not> cd_shouldRespond (simpleFallback name message st env))
   \<and> (\<not> someoneResponded name env \<and> includes_str message ''?'' \<longrightarrow>
        cd_shouldRespond (simpleFallback name message st env)
        \<and> cd_delay (simpleFallback name message st env) = getBaseDelay st Normal (ce_rDelay env))
   \<and> (\<not> someoneResponded name env \<and> \<not> includes_str message ''?'' \<longrightarrow>
        cd_shouldRespond (simpleFallback name message st env) = (ce_rFallback env < 0.2)
        \<and> (ce_rFallback env < 0.2 \<longrightarrow>
             cd_delay (simpleFallback name message st env) = getBaseDelay st Slow (ce_rDelay env)))"
proof (intro conjI)
  show "parseDecision None = ''skip''" by (rule parseDecision_null)
  show "ed_shouldRespond (engine_shouldRespond p None draws) \<longrightarrow>
        ed_reason (engine_shouldRespond p None draws) \<in> {''provoked'', ''enthusiastic''}"
    using engine_null by blast
  show "ce_engineAvailable env \<and> ce_reply env = None
        \<and> cd_shouldRespond (fst (coordinator_shouldRespond name username message otherBots st env)) \<longrightarrow>
        cd_reason (fst (coordinator_shouldRespond name username message otherBots st env))
          \<in> {''directly_mentioned'', ''provoked'', ''enthusiastic''}"
    using coordinator_null by blast
  show "\<not> ce_engineAvailable env
        \<and> \<not> includes_str (toLowerCase message) (toLowerCase name)
        \<and> \<not> otherBotMentioned name message otherBots \<longrightarrow>
        coordinator_shouldRespond name username message otherBots st env
          = (simpleFallback name message st env, st, 0)"
    by (simp add: coordinator_shouldRespond_def Let_def)
  show "someoneResponded name env \<longrightarrow> \<not> cd_shouldRespond (simpleFallback name message st env)"
    by (simp add: simpleFallback_def someoneResponded_def Let_def)
  show "\<not> someoneResponded name env \<and> includes_str message ''?'' \<longrightarrow>
        cd_shouldRespond (simpleFallback name message st env)
        \<and> cd_delay (simpleFallback name message st env) = getBaseDelay st Normal (ce_rDelay env)"
    by (simp add: simpleFallback_def someoneResponded_def Let_def)
  show "\<not> someoneResponded name env \<and> \<not> includes_str message ''?'' \<longrightarrow>
        cd_shouldRespond (simpleFallback name message st env) = (ce_rFallback env < 0.2)
        \<and> (ce_rFallback env < 0.2 \<longrightarrow>
             cd_delay (simpleFallback name message st env) = getBaseDelay st Slow (ce_rDelay env))"
    by (simp add: simpleFallback_def someoneResponded_def Let_def)
qed

lemma why_context: "getRecentContext 4 [(''Steve'', ''why?'')] = ''Steve: why?''"
  by (simp add: getRecentContext_def lastN_def)

lemma why_count: "backAndForthCount ''Blaze'' ''Steve'' ''Steve: why?'' = 0"
  by (simp add: backAndForthCount_def trim_def isSpace_def lastN_def
      matchSpeaker_def isWordChar_def Let_def)

lemma why_engine:
  "engine_shouldRespond
     \<lparr>ep_botName = ''Blaze'', ep_message = ''why?'', ep_sender = ''Steve'',
      ep_recentContext = ''Steve: why?'', ep_personality = default_personality\<rparr>
     None draws
   = mk_decision False ''skip'' ''helpful'' False 1"
  by (simp add: engine_shouldRespond_def oracleStage_def parseDecision_null why_count
      quickEmotionCheck_def includesAny_def farewellPhrases_def agreementPhrases_def
      toLowerCase_def lower_char_def trim_def isSpace_def default_personality_def
      str_or_def num_or_def Let_def)

lemma why_no_name: "\<not> includes_str (toLowerCase ''why?'') (toLowerCase ''Blaze'')"
  by (simp add: toLowerCase_def lower_char_def)

text \<open>
  Claim C1 as stated fails: the oracle query returns \<^verbatim>\<open>null\<close>, the message is the
  question \<open>why?\<close>, and the decision is \<open>shouldRespond = false\<close> with reason \<open>skip\<close>,
  after one (failed) query.
\<close>

theorem oracle_failure_question_counterexample:
  "ce_engineAvailable oracle_down_env \<and> ce_reply oracle_down_env = None
   \<and> includes_str ''why?'' ''?''
   \<and> \<not> cd_shouldRespond (fst (coordinator_shouldRespond ''Blaze'' ''Steve'' ''why?'' [] fresh_blaze oracle_down_env))
   \<and> cd_reason (fst (coordinator_shouldRespond ''Blaze'' ''Steve'' ''why?'' [] fresh_blaze oracle_down_env))
       = ''skip''
   \<and> snd (snd (coordinator_shouldRespond ''Blaze'' ''Steve'' ''why?'' [] fresh_blaze oracle_down_env)) = 1"
proof -
  have p: "personality fresh_blaze = default_personality"
    by (simp add: fresh_blaze_def new_soul_state_def)
  have e: "ce_engineAvailable oracle_down_env" "ce_reply oracle_down_env = None"
    "ce_recentMessages oracle_down_env = [(''Steve'', ''why?'')]"
    by (simp_all add: oracle_down_env_def)
  have o: "\<not> otherBotMentioned ''Blaze'' ''why?'' []"
    by (simp add: otherBotMentioned_def mentionedOther_def)
  show ?thesis
    using why_no_name
    by (simp add: coordinator_shouldRespond_def Let_def p e o why_context why_engine mk_decision_def)
qed

lemma engine_missing_fields:
  "\<not> ce_engineAvailable engine_missing_env" "\<not> someoneResponded ''Blaze'' engine_missing_env"
  by (simp_all add: engine_missing_env_def oracle_down_env_def someoneResponded_def)

theorem oracle_failure_is_skip_witness:
  "parseDecision None = ''skip''
   \<and> ce_engineAvailable oracle_down_env \<and> ce_reply oracle_down_env = None
   \<and> \<not> ce_engineAvailable engine_missing_env
   \<and> \<not> someoneResponded ''Blaze'' engine_missing_env
   \<and> includes_str ''why?'' ''?''
   \<and> coordinator_shouldRespond ''Blaze'' ''Steve'' ''why?'' [] fresh_blaze engine_missing_env
       = (simpleFallback ''Blaze'' ''why?'' fresh_blaze engine_missing_env, fresh_blaze, 0)
   \<and> cd_shouldRespond (simpleFallback ''Blaze'' ''why?'' fresh_blaze engine_missing_env)
   \<and> cd_delay (simpleFallback ''Blaze'' ''why?'' fresh_blaze engine_missing_env)
       = getBaseDelay fresh_blaze Normal (ce_rDelay engine_missing_env)"
proof -
  note t = oracle_failure_is_skip
    [of "engine_input ''why?'' []" "draws_of 0.5" engine_missing_env "''Blaze''" "''Steve''" "''why?''" "[]" fresh_blaze]
  have o: "\<not> otherBotMentioned ''Blaze'' ''why?'' []"
    by (simp add: otherBotMentioned_def mentionedOther_def)
  have q: "includes_str ''why?'' ''?''" by simp
  have e: "ce_engineAvailable oracle_down_env" "ce_reply oracle_down_env = None"
    by (simp_all add: oracle_down_env_def)
  from t engine_missing_fields why_no_name o q e show ?thesis by blast
qed


section \<open>Theorems: the context window of the coordinator\<close>

lemma countTurns_le:
  "fst (countTurns name sender ls (n, l)) \<le> n + length ls"
proof (induction ls arbitrary: n l)
  case Nil
  then show ?case by simp
next
  case (Cons x ls)
  show ?case
  proof (cases "matchSpeaker x")
    case None
    with Cons.IH [of n l] show ?thesis by simp
  next
    case (Some sp)
    let ?n' = "if (sp = name \<and> l = sender) \<or> (sp = sender \<and> l = name) then n + 1 else n"
    have "?n' \<le> n + 1" by simp
    with Cons.IH [of ?n' sp] Some show ?thesis by simp
  qed
qed

lemma matchSpeaker_nonempty: "matchSpeaker x = Some sp \<Longrightarrow> sp \<noteq> []"
  by (auto simp: matchSpeaker_def Let_def split: list.splits if_splits)

lemma countTurns_first:
  assumes "name \<noteq> []" "sender \<noteq> []"
  shows "fst (countTurns name sender ls (n, [])) \<le> n + (length ls - 1)"
proof (induction ls)
  case Nil
  then show ?case by simp
next
  case (Cons x ls)
  show ?case
  proof (cases "matchSpeaker x")
    case None
    with Cons.IH show ?thesis by simp
  next
    case (Some sp)
    with assms have "countTurns name sender (x # ls) (n, []) = countTurns name sender ls (n, sp)"
      by auto
    with countTurns_le [of name sender ls n sp] show ?thesis by simp
  qed
qed

lemma splitLines_single: "singleLine l \<Longrightarrow> splitLines l = [l]"
  by (induction l) (auto simp: singleLine_def)

lemma splitLines_append:
  "singleLine l \<Longrightarrow> splitLines (l @ CHR 0x0A # rest) = l # splitLines rest"
  by (induction l) (auto simp: singleLine_def)

lemma splitLines_joinLines:
  "ls \<noteq> [] \<Longrightarrow> \<forall>l \<in> set ls. singleLine l \<Longrightarrow> splitLines (joinLines ls) = ls"
proof (induction ls rule: joinLines.induct)
  case 1
  then show ?case by simp
next
  case (2 l)
  then show ?case by (simp add: splitLines_single)
next
  case (3 l v va)
  then show ?case by (simp add: splitLines_append)
qed

lemma length_splitLines_joinLines:
  "\<forall>l \<in> set ls. singleLine l \<Longrightarrow>
   length (filter P (splitLines (joinLines ls))) \<le> length ls \<or> ls = []"
  by (cases "ls = []") (simp_all add: splitLines_joinLines)

lemma lastN_length: "length (lastN n xs) \<le> min n (length xs)"
  by (simp add: lastN_def)

lemma lastN_subset: "set (lastN n xs) \<subseteq> set xs"
  by (simp add: lastN_def set_drop_subset)

text \<open>
  The context the coordinator hands to the engine is \<^verbatim>\<open>getRecentContext(4)\<close>: for
  single-line messages it has at most four lines, so the engine counts at most three
  alternating turns in it and its cutoff at four is never reached on this path.
\<close>

lemma recent_context_count_le_3:
  assumes nm: "name \<noteq> []" and sd: "sender \<noteq> []"
    and sl: "\<forall>(who, text) \<in> set msgs. singleLine who \<and> singleLine text"
  shows "backAndForthCount name sender (getRecentContext 4 msgs) \<le> 3"
proof -
  let ?ls = "map (\<lambda>(who, text). who @ '': '' @ text) (lastN 4 msgs)"
  have single: "\<forall>l \<in> set ?ls. singleLine l"
    using sl lastN_subset [of 4 msgs] by (fastforce simp: singleLine_def)
  have len: "length ?ls \<le> 4" using lastN_length [of 4 msgs] by simp
  let ?fl = "filter (\<lambda>l. trim l \<noteq> []) (splitLines (joinLines ?ls))"
  have "length ?fl \<le> 4"
  proof (cases "?ls = []")
    case True
    then show ?thesis by (simp add: trim_def)
  next
    case False
    then have "splitLines (joinLines ?ls) = ?ls" using single by (rule splitLines_joinLines)
    then have "length ?fl \<le> length ?ls" by simp
    with len show ?thesis by simp
  qed
  then have "length (lastN 8 ?fl) \<le> 4" using lastN_length [of 8 ?fl] by simp
  with countTurns_first [OF nm sd, of "lastN 8 ?fl" 0]
  have "fst (countTurns name sender (lastN 8 ?fl) (0, [])) \<le> 3" by simp
  then show ?thesis by (simp add: backAndForthCount_def getRecentContext_def Let_def)
qed

lemma long_exchange_full_count:
  "backAndForthCount ''Blaze'' ''Steve'' (getRecentContext 8 long_exchange) = 5"
  by (simp add: backAndForthCount_def getRecentContext_def long_exchange_def trim_def
      isSpace_def lastN_def matchSpeaker_def isWordChar_def Let_def)

lemma long_exchange_window_count:
  "backAndForthCount ''Blaze'' ''Steve'' (getRecentContext 4 long_exchange) = 3"
  by (simp add: backAndForthCount_def getRecentContext_def long_exchange_def trim_def
      isSpace_def lastN_def matchSpeaker_def isWordChar_def Let_def)

lemma nice_weather_no_farewell:
  "\<not> includesAny (trim (toLowerCase ''nice weather'')) farewellPhrases"
  by (simp add: includesAny_def farewellPhrases_def toLowerCase_def lower_char_def trim_def isSpace_def)

lemma nice_weather_no_agreement:
  "\<not> includesAny (trim (toLowerCase ''nice weather'')) agreementPhrases"
  by (simp add: includesAny_def agreementPhrases_def toLowerCase_def lower_char_def trim_def isSpace_def)

lemma nice_weather_full_context:
  "engine_shouldRespond (engine_input ''nice weather'' (getRecentContext 8 long_exchange))
     (Some ''respond'') (draws_of 0.96)
   = mk_decision False ''conversation_limit'' ''calm'' False 0"
proof -
  have c: "getRecentContext 8 long_exchange \<noteq> []"
    by (simp add: getRecentContext_def long_exchange_def lastN_def)
  show ?thesis
    using c long_exchange_full_count nice_weather_no_farewell nice_weather_no_agreement
    by (simp add: engine_shouldRespond_def engine_input_def Let_def
        default_personality_def str_or_def)
qed

lemma parseDecision_respond: "parseDecision (Some ''respond'') = ''respond''"
  by (simp add: parseDecision_def str_or_def toLowerCase_def lower_char_def trim_def isSpace_def
      firstWord_def isSeparator_def Let_def)

lemma nice_weather_emotion: "quickEmotionCheck ''nice weather'' ''Blaze'' ''calm'' = ''calm''"
  by (simp add: quickEmotionCheck_def toLowerCase_def lower_char_def Let_def)

lemma nice_weather_window:
  "engine_shouldRespond (engine_input ''nice weather'' (getRecentContext 4 long_exchange))
     (Some ''respond'') (draws_of 0.96)
   = mk_decision True ''respond'' ''calm'' False 1"
proof -
  have o: "oracleStage (engine_input ''nice weather'' (getRecentContext 4 long_exchange))
             (Some ''respond'') (draws_of 0.96) = mk_decision True ''respond'' ''calm'' False 1"
    by (simp add: oracleStage_def parseDecision_respond engine_input_def default_personality_def
        str_or_def num_or_def nice_weather_emotion draws_of_def Let_def)
  show ?thesis
    using long_exchange_window_count o nice_weather_no_farewell nice_weather_no_agreement
    by (simp add: engine_shouldRespond_def engine_input_def Let_def draws_of_def)
qed

text \<open>
  Claim C3 against the code. The shared recent messages hold five alternating turns
  between \<open>Blaze\<close> and \<open>Steve\<close>. Handed the whole shared context, the engine decides
  \<open>shouldRespond = false\<close> without a query, as the claim says. The coordinator hands the
  engine only the last four messages, in which three turns are left: with a throttle draw
  of 0.96 the oracle is queried once and the decision is \<open>shouldRespond = true\<close>.
\<close>

theorem coordinator_window_misses_cutoff:
  "backAndForthCount ''Blaze'' ''Steve'' (getRecentContext 8 long_exchange) = 5
   \<and> \<not> ed_shouldRespond (engine_shouldRespond
          (engine_input ''nice weather'' (getRecentContext 8 long_exchange)) (Some ''respond'') (draws_of 0.96))
   \<and> ed_oracleCalls (engine_shouldRespond
          (engine_input ''nice weather'' (getRecentContext 8 long_exchange)) (Some ''respond'') (draws_of 0.96)) = 0
   \<and> backAndForthCount ''Blaze'' ''Steve'' (getRecentContext 4 long_exchange) = 3
   \<and> cd_shouldRespond (fst (coordinator_shouldRespond ''Blaze'' ''Steve'' ''nice weather'' [] fresh_blaze long_exchange_env))
   \<and> cd_reason (fst (coordinator_shouldRespond ''Blaze'' ''Steve'' ''nice weather'' [] fresh_blaze long_exchange_env))
       = ''respond''
   \<and> snd (snd (coordinator_shouldRespond ''Blaze'' ''Steve'' ''nice weather'' [] fresh_blaze long_exchange_env)) = 1"
proof -
  have p: "personality fresh_blaze = default_personality"
    by (simp add: fresh_blaze_def new_soul_state_def)
  have e: "ce_engineAvailable long_exchange_env" "ce_reply long_exchange_env = Some ''respond''"
    "ce_recentMessages long_exchange_env = long_exchange"
    "ce_engineDraws long_exchange_env = draws_of 0.96"
    by (simp_all add: long_exchange_env_def)
  have o: "\<not> otherBotMentioned ''Blaze'' ''nice weather'' []"
    by (simp add: otherBotMentioned_def mentionedOther_def)
  have n: "\<not> includes_str (toLowerCase ''nice weather'') (toLowerCase ''Blaze'')"
    by (simp add: toLowerCase_def lower_char_def)
  have w: "engine_shouldRespond
             \<lparr>ep_botName = ''Blaze'', ep_message = ''nice weather'', ep_sender = ''Steve'',
              ep_recentContext = getRecentContext 4 long_exchange,
              ep_personality = default_personality\<rparr>
             (Some ''respond'') (draws_of 0.96)
           = mk_decision True ''respond'' ''calm'' False 1"
    using nice_weather_window by (simp add: engine_input_def)
  have c: "cd_shouldRespond (fst (coordinator_shouldRespond ''Blaze'' ''Steve'' ''nice weather'' [] fresh_blaze long_exchange_env))
   \<and> cd_reason (fst (coordinator_shouldRespond ''Blaze'' ''Steve'' ''nice weather'' [] fresh_blaze long_exchange_env))
       = ''respond''
   \<and> snd (snd (coordinator_shouldRespond ''Blaze'' ''Steve'' ''nice weather'' [] fresh_blaze long_exchange_env)) = 1"
    using n w by (simp add: coordinator_shouldRespond_def Let_def p e o mk_decision_def)
  show ?thesis
    using c long_exchange_full_count long_exchange_window_count nice_weather_full_context
    by (simp add: mk_decision_def)
qed


end
